theory Spec2Isabelle
  imports Main
begin

section \<open>The autocomplete widget of static/js/app.js\<close>

text \<open>
  The script is one immediately invoked function. It looks up the text input
  \<^verbatim>\<open>#book-input\<close> and the list \<^verbatim>\<open>#suggestions\<close>, keeps three variables in its closure
  (\<^verbatim>\<open>activeIndex\<close>, \<^verbatim>\<open>debounceTimer\<close>, \<^verbatim>\<open>controller\<close>) and installs four event
  listeners. The embedding keeps the names of the source. A JavaScript string is a
  \<^typ>\<open>string\<close>, one \<^typ>\<open>char\<close> for each code unit; the characters the script tests
  for are all ASCII.
\<close>

subsection \<open>Values and errors\<close>

text \<open>The exceptions that can reach the \<^verbatim>\<open>catch\<close> of the debounced callback, by name.\<close>

datatype error = AbortError | TypeError | SyntaxError

text \<open>
  What \<^verbatim>\<open>response.json()\<close> can produce, and \<^verbatim>\<open>undefined\<close> for a property that is not
  there. An object is the list of its properties. Only whether a number is zero is ever
  looked at, so numbers are integers here.
\<close>

datatype jsval =
    Undefined
  | JNull
  | JBool bool
  | JNum int
  | JStr string
  | JArr "jsval list"
  | JObj "(string \<times> jsval) list"

subsection \<open>escapeHtml\<close>

text \<open>
  \<^verbatim>\<open>value.replace(/c/g, r)\<close> for a pattern that is one literal character: every
  occurrence of the character is replaced, left to right, and the replacement is not
  scanned again.
\<close>

fun replaceAll :: "char \<Rightarrow> string \<Rightarrow> string \<Rightarrow> string" where
  "replaceAll c r [] = []"
| "replaceAll c r (x # xs) = (if x = c then r @ replaceAll c r xs else x # replaceAll c r xs)"

text \<open>The five passes of lines 9 to 15, in the order of the source: the ampersand first.\<close>

definition escapeHtml :: "string \<Rightarrow> string" where
  "escapeHtml v =
     replaceAll (CHR 0x27) ''&#039;''
       (replaceAll (CHR 0x22) ''&quot;''
         (replaceAll (CHR ''>'') ''&gt;''
           (replaceAll (CHR ''<'') ''&lt;''
             (replaceAll (CHR ''&'') ''&amp;'' v))))"

subsection \<open>Assigning to innerHTML\<close>

text \<open>
  \<^verbatim>\<open>suggestionsList.innerHTML = markup\<close> hands the string to the browser's HTML parser,
  and the script later reads the \<^verbatim>\<open>li\<close> elements and their text back. The parser is
  the platform's, not the repository's; what follows is a model of it that is small and
  total: the normalisation of line breaks that comes before tokenizing, a tokenizer with
  the states of the HTML standard's for character data, tags and attributes
  (double-quoted, single-quoted and unquoted values, names folded to lower case, a
  repeated attribute dropped), the five character references that \<^verbatim>\<open>escapeHtml\<close>
  writes, and the tree builder's dropping of NUL from text. It leaves out what the
  rendered markup cannot contain: comments proper, raw-text elements, other character
  references, and NUL inside a tag (the parser writes U+FFFD there, which is not among
  the code units of \<^typ>\<open>char\<close>).
\<close>

text \<open>
  A row of the dropdown: an \<^verbatim>\<open>li\<close> element with its attributes, in their order, and
  its text content. The class list of the element is its attribute \<^verbatim>\<open>class\<close>.
\<close>

record li =
  attributes :: "(string \<times> string) list"
  textContent :: string

text \<open>
  Before tokenizing, every pair CR LF and every CR that stands alone becomes one LF.
\<close>

fun normalizeNewlines :: "string \<Rightarrow> string" where
  "normalizeNewlines [] = []"
| "normalizeNewlines (c # cs) =
     (if c = CHR 0x0D \<and> take 1 cs = [CHR 0x0A] then CHR 0x0A # normalizeNewlines (drop 1 cs)
      else if c = CHR 0x0D then CHR 0x0A # normalizeNewlines cs
      else c # normalizeNewlines cs)"

definition asciiLower :: "char \<Rightarrow> char" where
  "asciiLower c =
     (let n = (of_char c :: nat) in if 65 \<le> n \<and> n \<le> 90 then char_of (n + 32) else c)"

definition isSpace :: "char \<Rightarrow> bool" where
  "isSpace c =
     (c = CHR '' '' \<or> c = CHR 0x09 \<or> c = CHR 0x0A \<or> c = CHR 0x0C \<or> c = CHR 0x0D)"

definition isAlpha :: "char \<Rightarrow> bool" where
  "isAlpha c =
     (let n = (of_char c :: nat) in (65 \<le> n \<and> n \<le> 90) \<or> (97 \<le> n \<and> n \<le> 122))"

text \<open>Character data as the parser reads it: the five references decoded, left to right.\<close>

fun unescapeHtml :: "string \<Rightarrow> string" where
  "unescapeHtml [] = []"
| "unescapeHtml (c # cs) =
     (if c = CHR ''&'' \<and> take 4 cs = ''amp;'' then CHR ''&'' # unescapeHtml (drop 4 cs)
      else if c = CHR ''&'' \<and> take 3 cs = ''lt;'' then CHR ''<'' # unescapeHtml (drop 3 cs)
      else if c = CHR ''&'' \<and> take 3 cs = ''gt;'' then CHR ''>'' # unescapeHtml (drop 3 cs)
      else if c = CHR ''&'' \<and> take 5 cs = ''quot;'' then CHR 0x22 # unescapeHtml (drop 5 cs)
      else if c = CHR ''&'' \<and> take 5 cs = ''#039;'' then CHR 0x27 # unescapeHtml (drop 5 cs)
      else c # unescapeHtml cs)"

datatype token = Chars string | StartTag string "(string \<times> string) list" | EndTag string

record tag =
  closing :: bool
  tagName :: string
  tagAttrs :: "(string \<times> string) list"

text \<open>
  The tokenizer's states. \<open>Data\<close>, \<open>TagOpen\<close>, \<open>EndTagOpen\<close> and \<open>Bogus\<close> carry the
  character data read since the last tag; the others carry the tag being read, the
  attribute name and the attribute value so far.
\<close>

datatype tstate =
    Data string
  | TagOpen string
  | EndTagOpen string
  | Bogus string
  | TagName tag
  | BeforeAttr tag
  | AttrName tag string
  | AfterAttrName tag string
  | BeforeValue tag string
  | Quoted char tag string string
  | Unquoted tag string string

definition flush :: "string \<Rightarrow> token list" where
  "flush raw = (if raw = [] then [] else [Chars (unescapeHtml raw)])"

definition emitTag :: "tag \<Rightarrow> token" where
  "emitTag t = (if closing t then EndTag (tagName t) else StartTag (tagName t) (tagAttrs t))"

text \<open>An attribute whose name the tag already has is dropped.\<close>

definition withAttr :: "tag \<Rightarrow> string \<Rightarrow> string \<Rightarrow> tag" where
  "withAttr t n v =
     (if n \<in> fst ` set (tagAttrs t) then t
      else t\<lparr>tagAttrs := tagAttrs t @ [(n, unescapeHtml v)]\<rparr>)"

fun tokens :: "tstate \<Rightarrow> string \<Rightarrow> token list" where
  "tokens (Data raw) [] = flush raw"
| "tokens (TagOpen raw) [] = flush (raw @ ''<'')"
| "tokens (EndTagOpen raw) [] = flush (raw @ ''</'')"
| "tokens (Bogus raw) [] = flush raw"
| "tokens (TagName t) [] = []"
| "tokens (BeforeAttr t) [] = []"
| "tokens (AttrName t n) [] = []"
| "tokens (AfterAttrName t n) [] = []"
| "tokens (BeforeValue t n) [] = []"
| "tokens (Quoted q t n v) [] = []"
| "tokens (Unquoted t n v) [] = []"
| "tokens (Data raw) (c # cs) =
     (if c = CHR ''<'' then tokens (TagOpen raw) cs else tokens (Data (raw @ [c])) cs)"
| "tokens (TagOpen raw) (c # cs) =
     (if isAlpha c then
        flush raw
          @ tokens (TagName \<lparr>closing = False, tagName = [asciiLower c], tagAttrs = []\<rparr>) cs
      else if c = CHR ''/'' then tokens (EndTagOpen raw) cs
      else if c = CHR ''!'' \<or> c = CHR ''?'' then tokens (Bogus raw) cs
      else if c = CHR ''<'' then tokens (TagOpen (raw @ ''<'')) cs
      else tokens (Data (raw @ [CHR ''<'', c])) cs)"
| "tokens (EndTagOpen raw) (c # cs) =
     (if isAlpha c then
        flush raw
          @ tokens (TagName \<lparr>closing = True, tagName = [asciiLower c], tagAttrs = []\<rparr>) cs
      else if c = CHR ''>'' then tokens (Data raw) cs
      else tokens (Bogus raw) cs)"
| "tokens (Bogus raw) (c # cs) =
     (if c = CHR ''>'' then tokens (Data raw) cs else tokens (Bogus raw) cs)"
| "tokens (TagName t) (c # cs) =
     (if isSpace c \<or> c = CHR ''/'' then tokens (BeforeAttr t) cs
      else if c = CHR ''>'' then emitTag t # tokens (Data []) cs
      else tokens (TagName (t\<lparr>tagName := tagName t @ [asciiLower c]\<rparr>)) cs)"
| "tokens (BeforeAttr t) (c # cs) =
     (if isSpace c \<or> c = CHR ''/'' then tokens (BeforeAttr t) cs
      else if c = CHR ''>'' then emitTag t # tokens (Data []) cs
      else tokens (AttrName t [asciiLower c]) cs)"
| "tokens (AttrName t n) (c # cs) =
     (if isSpace c then tokens (AfterAttrName t n) cs
      else if c = CHR ''/'' then tokens (BeforeAttr (withAttr t n [])) cs
      else if c = CHR ''='' then tokens (BeforeValue t n) cs
      else if c = CHR ''>'' then emitTag (withAttr t n []) # tokens (Data []) cs
      else tokens (AttrName t (n @ [asciiLower c])) cs)"
| "tokens (AfterAttrName t n) (c # cs) =
     (if isSpace c then tokens (AfterAttrName t n) cs
      else if c = CHR ''/'' then tokens (BeforeAttr (withAttr t n [])) cs
      else if c = CHR ''='' then tokens (BeforeValue t n) cs
      else if c = CHR ''>'' then emitTag (withAttr t n []) # tokens (Data []) cs
      else tokens (AttrName (withAttr t n []) [asciiLower c]) cs)"
| "tokens (BeforeValue t n) (c # cs) =
     (if isSpace c then tokens (BeforeValue t n) cs
      else if c = CHR 0x22 \<or> c = CHR 0x27 then tokens (Quoted c t n []) cs
      else if c = CHR ''>'' then emitTag (withAttr t n []) # tokens (Data []) cs
      else tokens (Unquoted t n [c]) cs)"
| "tokens (Quoted q t n v) (c # cs) =
     (if c = q then tokens (BeforeAttr (withAttr t n v)) cs
      else tokens (Quoted q t n (v @ [c])) cs)"
| "tokens (Unquoted t n v) (c # cs) =
     (if isSpace c then tokens (BeforeAttr (withAttr t n v)) cs
      else if c = CHR ''>'' then emitTag (withAttr t n v) # tokens (Data []) cs
      else tokens (Unquoted t n (v @ [c])) cs)"

primrec splitSpaces :: "string \<Rightarrow> string \<Rightarrow> string list" where
  "splitSpaces cur [] = (if cur = [] then [] else [cur])"
| "splitSpaces cur (c # cs) =
     (if isSpace c then (if cur = [] then [] else [cur]) @ splitSpaces [] cs
      else splitSpaces (cur @ [c]) cs)"

definition createLi :: "(string \<times> string) list \<Rightarrow> li" where
  "createLi attrs = \<lparr>attributes = attrs, textContent = []\<rparr>"

definition closeLi :: "li option \<Rightarrow> li list" where
  "closeLi cur = (case cur of None \<Rightarrow> [] | Some item \<Rightarrow> [item])"

text \<open>
  The \<^verbatim>\<open>li\<close> elements that \<^verbatim>\<open>querySelectorAll("li")\<close> finds afterwards, in document
  order. A start tag \<^verbatim>\<open>li\<close> closes the row that is open; text goes to the open row,
  without the NUL characters, which the tree builder ignores; tags of other names do
  not separate text.
\<close>

fun children :: "li option \<Rightarrow> token list \<Rightarrow> li list" where
  "children cur [] = closeLi cur"
| "children cur (Chars t # ts) =
     (case cur of
        None \<Rightarrow> children None ts
      | Some item \<Rightarrow>
          children
            (Some (item\<lparr>textContent := textContent item @ filter (\<lambda>c. c \<noteq> CHR 0x00) t\<rparr>)) ts)"
| "children cur (StartTag name attrs # ts) =
     (if name = ''li'' then closeLi cur @ children (Some (createLi attrs)) ts
      else children cur ts)"
| "children cur (EndTag name # ts) =
     (if name = ''li'' then closeLi cur @ children None ts else children cur ts)"

definition setInnerHTML :: "string \<Rightarrow> li list" where
  "setInnerHTML markup = children None (tokens (Data []) (normalizeNewlines markup))"

text \<open>
  The class list of a row: the tokens of its attribute \<^verbatim>\<open>class\<close>, each once, in the
  order of their first occurrence; written back with single spaces in between.
\<close>

definition classTokens :: "(string \<times> string) list \<Rightarrow> string list" where
  "classTokens attrs =
     (case map_of attrs ''class'' of
        None \<Rightarrow> []
      | Some v \<Rightarrow> rev (remdups (rev (splitSpaces [] v))))"

fun joinSpaces :: "string list \<Rightarrow> string" where
  "joinSpaces [] = []"
| "joinSpaces [t] = t"
| "joinSpaces (t # ts) = t @ '' '' @ joinSpaces ts"

definition setAttribute :: "string \<Rightarrow> string \<Rightarrow> (string \<times> string) list \<Rightarrow> (string \<times> string) list" where
  "setAttribute name v attrs =
     (if name \<in> fst ` set attrs then map (\<lambda>(n, x). if n = name then (n, v) else (n, x)) attrs
      else attrs @ [(name, v)])"

text \<open>
  \<^verbatim>\<open>item.classList.toggle(token, force)\<close>: the token is added when \<open>force\<close> is true and
  the list does not hold it, removed when \<open>force\<close> is false and the list holds it, and
  only then is the attribute written; otherwise the row stays as it is.
\<close>

definition toggleClass :: "string \<Rightarrow> bool \<Rightarrow> li \<Rightarrow> li" where
  "toggleClass token force item =
     (let held = classTokens (attributes item) in
      if force \<and> token \<notin> set held then
        item\<lparr>attributes := setAttribute ''class'' (joinSpaces (held @ [token])) (attributes item)\<rparr>
      else if \<not> force \<and> token \<in> set held then
        item\<lparr>attributes :=
               setAttribute ''class'' (joinSpaces (removeAll token held)) (attributes item)\<rparr>
      else item)"

text \<open>
  Assigning to \<^verbatim>\<open>input.value\<close> of a text input: the control keeps no line break, so
  every LF and CR is taken out of the string.
\<close>

definition sanitizeValue :: "string \<Rightarrow> string" where
  "sanitizeValue v = filter (\<lambda>c. c \<noteq> CHR 0x0A \<and> c \<noteq> CHR 0x0D) v"

subsection \<open>The state of the widget\<close>

text \<open>
  The input's value, the \<^verbatim>\<open>li\<close> children of the list, whether the list carries the
  class \<^verbatim>\<open>show\<close>, and the three variables of the closure. A timer and an abort
  controller are known by a number.
\<close>

record widget =
  inputValue :: string
  listItems :: "li list"
  classShow :: bool
  activeIndex :: int
  debounceTimer :: "nat option"
  controller :: "nat option"

definition clearSuggestions :: "widget \<Rightarrow> widget" where
  "clearSuggestions w = w\<lparr>listItems := [], classShow := False, activeIndex := -1\<rparr>"


subsection \<open>renderSuggestions\<close>

text \<open>The decimal digits of an index, as the template literal writes \<^verbatim>\<open>${index}\<close>.\<close>

definition digit :: "nat \<Rightarrow> char" where
  "digit d = char_of (48 + d)"

fun showNat :: "nat \<Rightarrow> string" where
  "showNat n = (if n < 10 then [digit n] else showNat (n div 10) @ [digit (n mod 10)])"

text \<open>The template literal of line 34, for a book that is a string.\<close>

definition rowMarkup :: "nat \<Rightarrow> string \<Rightarrow> string" where
  "rowMarkup index book =
     ''<li data-index='' @ [CHR 0x22] @ showNat index @ [CHR 0x22]
       @ '' role='' @ [CHR 0x22] @ ''option'' @ [CHR 0x22] @ ''>''
       @ escapeHtml book @ ''</li>''"

text \<open>
  \<^verbatim>\<open>books.map(...).join("")\<close>, from the given index on. A book that is not a string has
  no method \<^verbatim>\<open>replace\<close>: \<^verbatim>\<open>escapeHtml\<close> throws a TypeError, before anything is
  assigned.
\<close>

fun joinRows :: "nat \<Rightarrow> jsval list \<Rightarrow> error + string" where
  "joinRows index [] = Inr []"
| "joinRows index (book # books) =
     (case book of
        JStr s \<Rightarrow>
          (case joinRows (Suc index) books of
             Inl e \<Rightarrow> Inl e
           | Inr rest \<Rightarrow> Inr (rowMarkup index s @ rest))
      | _ \<Rightarrow> Inl TypeError)"

text \<open>Lines 27 to 39. Only \<open>JArr\<close> passes \<^verbatim>\<open>Array.isArray\<close>.\<close>

definition renderSuggestions :: "jsval \<Rightarrow> widget \<Rightarrow> error + widget" where
  "renderSuggestions books w =
     (case books of
        JArr bs \<Rightarrow>
          if bs = [] then Inr (clearSuggestions w)
          else
            (case joinRows 0 bs of
               Inl e \<Rightarrow> Inl e
             | Inr markup \<Rightarrow>
                 Inr (w\<lparr>listItems := setInnerHTML markup, classShow := True, activeIndex := -1\<rparr>))
      | _ \<Rightarrow> Inr (clearSuggestions w))"

text \<open>
  Lines 41 to 49: the class \<^verbatim>\<open>active\<close> is toggled on row \<open>index\<close> with the force
  \<^verbatim>\<open>index === activeIndex\<close>. Scrolling the row into view changes nothing the script reads.
\<close>

definition setActiveSuggestion :: "widget \<Rightarrow> widget" where
  "setActiveSuggestion w =
     w\<lparr>listItems :=
         map (\<lambda>(index, item). toggleClass ''active'' (int index = activeIndex w) item)
           (enumerate 0 (listItems w))\<rparr>"

subsection \<open>The keydown listener\<close>

text \<open>
  JavaScript's \<^verbatim>\<open>%\<close> is the remainder of the division that truncates towards zero:
  the result has the sign of the dividend. (A negative zero reads as zero everywhere
  the script uses the result.)
\<close>

definition js_rem :: "int \<Rightarrow> int \<Rightarrow> int" where
  "js_rem a b = sgn a * (\<bar>a\<bar> mod \<bar>b\<bar>)"

datatype key = ArrowDown | ArrowUp | Enter | Escape | OtherKey

text \<open>
  What one run of the listener leaves: the widget, whether \<^verbatim>\<open>event.preventDefault()\<close>
  was called, and the exception it ended with, if any.
\<close>

record keyResult =
  after :: widget
  defaultPrevented :: bool
  thrown :: "error option"

text \<open>
  Lines 103 to 133. \<^verbatim>\<open>items[activeIndex]\<close> is \<^verbatim>\<open>undefined\<close> beyond the last row, and
  reading \<^verbatim>\<open>textContent\<close> of it throws a TypeError, after \<^verbatim>\<open>preventDefault\<close> has run.
  The text of the row goes through the assignment to \<^verbatim>\<open>input.value\<close>.
\<close>

definition keydown :: "key \<Rightarrow> widget \<Rightarrow> keyResult" where
  "keydown k w =
     (let items = listItems w; n = int (length items) in
      if n = 0 then \<lparr>after = w, defaultPrevented = False, thrown = None\<rparr>
      else if k = ArrowDown then
        \<lparr>after = setActiveSuggestion (w\<lparr>activeIndex := js_rem (activeIndex w + 1) n\<rparr>),
         defaultPrevented = True, thrown = None\<rparr>
      else if k = ArrowUp then
        \<lparr>after = setActiveSuggestion (w\<lparr>activeIndex := js_rem (activeIndex w - 1 + n) n\<rparr>),
         defaultPrevented = True, thrown = None\<rparr>
      else if k = Enter \<and> 0 \<le> activeIndex w then
        (if activeIndex w < n then
           \<lparr>after =
              clearSuggestions
                (w\<lparr>inputValue := sanitizeValue (textContent (items ! nat (activeIndex w)))\<rparr>),
            defaultPrevented = True, thrown = None\<rparr>
         else \<lparr>after = w, defaultPrevented = True, thrown = Some TypeError\<rparr>)
      else if k = Escape then
        \<lparr>after = clearSuggestions w, defaultPrevented = False, thrown = None\<rparr>
      else \<lparr>after = w, defaultPrevented = False, thrown = None\<rparr>)"

subsection \<open>The mousedown and click listeners\<close>

text \<open>
  Lines 93 to 101. The argument is the row that \<^verbatim>\<open>event.target.closest("li")\<close> finds,
  \<open>None\<close> when the press is on no row.
\<close>

definition mousedown :: "nat option \<Rightarrow> widget \<Rightarrow> widget" where
  "mousedown target w =
     (case target of
        None \<Rightarrow> w
      | Some i \<Rightarrow>
          if i < length (listItems w)
          then clearSuggestions (w\<lparr>inputValue := sanitizeValue (textContent (listItems w ! i))\<rparr>)
          else w)"

text \<open>
  Lines 135 to 139. The argument says whether \<^verbatim>\<open>event.target.closest(".recommend-form")\<close>
  finds an element: whether the click is inside the form.
\<close>

definition documentClick :: "bool \<Rightarrow> widget \<Rightarrow> widget" where
  "documentClick insideForm w = (if \<not> insideForm then clearSuggestions w else w)"

subsection \<open>fetchSuggestions\<close>

text \<open>\<^verbatim>\<open>response.ok\<close>: the status lies between 200 and 299.\<close>

definition responseOk :: "nat \<Rightarrow> bool" where
  "responseOk status = (200 \<le> status \<and> status \<le> 299)"

text \<open>
  \<^verbatim>\<open>payload.books\<close>. Reading a property of \<^verbatim>\<open>null\<close> throws a TypeError; an object
  gives the value of its property or \<^verbatim>\<open>undefined\<close>; a boolean, a number, a string and
  an array have no property of this name.
\<close>

definition getBooks :: "jsval \<Rightarrow> error + jsval" where
  "getBooks payload =
     (case payload of
        Undefined \<Rightarrow> Inl TypeError
      | JNull \<Rightarrow> Inl TypeError
      | JObj props \<Rightarrow> (case map_of props ''books'' of None \<Rightarrow> Inr Undefined | Some v \<Rightarrow> Inr v)
      | _ \<Rightarrow> Inr Undefined)"

text \<open>What \<^verbatim>\<open>||\<close> takes for true.\<close>

definition truthy :: "jsval \<Rightarrow> bool" where
  "truthy v =
     (case v of
        Undefined \<Rightarrow> False
      | JNull \<Rightarrow> False
      | JBool b \<Rightarrow> b
      | JNum n \<Rightarrow> n \<noteq> 0
      | JStr s \<Rightarrow> s \<noteq> []
      | JArr _ \<Rightarrow> True
      | JObj _ \<Rightarrow> True)"

text \<open>
  Lines 64 to 66, once \<^verbatim>\<open>fetch\<close> has answered with a status: the value that
  \<^verbatim>\<open>fetchSuggestions\<close> returns at once, or \<open>None\<close> when it goes on to await
  \<^verbatim>\<open>response.json()\<close>.
\<close>

definition onResponse :: "nat \<Rightarrow> (error + jsval) option" where
  "onResponse status = (if \<not> responseOk status then Some (Inr (JArr [])) else None)"

text \<open>
  Lines 68 and 69, once \<^verbatim>\<open>response.json()\<close> has settled: with an error (the body is
  not JSON, or the transfer broke) or with the parsed payload.
\<close>

definition onJson :: "error + jsval \<Rightarrow> error + jsval" where
  "onJson body =
     (case body of
        Inl e \<Rightarrow> Inl e
      | Inr payload \<Rightarrow>
          (case getBooks payload of
             Inl e \<Rightarrow> Inl e
           | Inr books \<Rightarrow> Inr (if truthy books then books else JArr [])))"

text \<open>
  Lines 63 to 69 as a whole, for a request that is not aborted: how \<^verbatim>\<open>fetchSuggestions\<close>
  ends, given how the two promises it awaits settle.
\<close>

definition fetchSuggestions_result :: "error + nat \<Rightarrow> error + jsval \<Rightarrow> error + jsval" where
  "fetchSuggestions_result response body =
     (case response of
        Inl e \<Rightarrow> Inl e
      | Inr status \<Rightarrow> (case onResponse status of Some r \<Rightarrow> r | None \<Rightarrow> onJson body))"

text \<open>
  Lines 82 to 89: what the debounced callback does once \<^verbatim>\<open>fetchSuggestions\<close> has
  ended. An exception of \<^verbatim>\<open>renderSuggestions\<close> lands in the same \<^verbatim>\<open>catch\<close>.
\<close>

definition catchError :: "error \<Rightarrow> widget \<Rightarrow> widget" where
  "catchError e w = (if e \<noteq> AbortError then clearSuggestions w else w)"

definition settle :: "error + jsval \<Rightarrow> widget \<Rightarrow> widget" where
  "settle result w =
     (case result of
        Inl e \<Rightarrow> catchError e w
      | Inr books \<Rightarrow>
          (case renderSuggestions books w of
             Inl e \<Rightarrow> catchError e w
           | Inr w' \<Rightarrow> w'))"

subsection \<open>Timers and requests\<close>

text \<open>
  The platform's side. A timer that \<^verbatim>\<open>setTimeout\<close> has armed and that has neither run nor
  been cleared is in the list of active timers, with the query its callback has
  captured and the time, in milliseconds, before which it cannot run. Every call of
  \<^verbatim>\<open>fetchSuggestions\<close> makes one abort controller and one request; both are known by
  the position of the request in the list of all requests made.
\<close>

record timer =
  timerQuery :: string
  due :: nat

datatype phase = Fetching | ReadingBody | Settled | Aborted

record request =
  paramQ :: string
  paramLimit :: string
  phase :: phase

record browser =
  ui :: widget
  nextTimer :: nat
  activeTimers :: "(nat \<times> timer) list"
  requests :: "request list"

definition clearTimeout :: "nat option \<Rightarrow> (nat \<times> timer) list \<Rightarrow> (nat \<times> timer) list" where
  "clearTimeout handle ts =
     (case handle of None \<Rightarrow> ts | Some h \<Rightarrow> filter (\<lambda>(i, _). i \<noteq> h) ts)"

definition inFlight :: "request list \<Rightarrow> nat \<Rightarrow> bool" where
  "inFlight rs c = (c < length rs \<and> (phase (rs ! c) = Fetching \<or> phase (rs ! c) = ReadingBody))"

text \<open>
  \<^verbatim>\<open>controller.abort()\<close>: a request that has not settled is aborted, and what it awaits
  rejects with an AbortError; on a request that has settled it does nothing.
\<close>

definition abort :: "nat \<Rightarrow> request list \<Rightarrow> request list" where
  "abort c rs = (if inFlight rs c then rs[c := (rs ! c)\<lparr>phase := Aborted\<rparr>] else rs)"

text \<open>
  JavaScript's \<^verbatim>\<open>trim\<close> removes white space and line terminators at both ends; these
  are the ones among the code units below 256.
\<close>

definition isWhiteSpace :: "char \<Rightarrow> bool" where
  "isWhiteSpace c =
     (c = CHR 0x09 \<or> c = CHR 0x0A \<or> c = CHR 0x0B \<or> c = CHR 0x0C \<or> c = CHR 0x0D
      \<or> c = CHR 0x20 \<or> c = CHR 0xA0)"

definition trim :: "string \<Rightarrow> string" where
  "trim s = rev (dropWhile isWhiteSpace (rev (dropWhile isWhiteSpace s)))"

text \<open>
  Lines 52 to 63, up to the first \<^verbatim>\<open>await\<close>: the controller in hand is aborted, a new
  one takes its place and the request goes out with the parameters \<^verbatim>\<open>q\<close> and
  \<^verbatim>\<open>limit\<close>. The endpoint is the template's \<^verbatim>\<open>data-suggestions-url\<close>, taken to be one
  that \<^verbatim>\<open>new URL\<close> accepts.
\<close>

definition fetchSuggestions :: "string \<Rightarrow> browser \<Rightarrow> browser" where
  "fetchSuggestions query b =
     (let rs = (case controller (ui b) of None \<Rightarrow> requests b | Some c \<Rightarrow> abort c (requests b))
      in b\<lparr>ui := (ui b)\<lparr>controller := Some (length rs)\<rparr>,
           requests := rs @ [\<lparr>paramQ = query, paramLimit = ''10'', phase = Fetching\<rparr>]\<rparr>)"

text \<open>
  The callback of a timer, lines 81 to 90, up to its \<^verbatim>\<open>await\<close>. When the call aborts a
  request in flight, the callback that awaits that request resumes in its
  \<^verbatim>\<open>catch\<close> with the AbortError.
\<close>

definition timerCallback :: "string \<Rightarrow> browser \<Rightarrow> browser" where
  "timerCallback query b =
     (let superseded =
            (case controller (ui b) of None \<Rightarrow> False | Some c \<Rightarrow> inFlight (requests b) c);
          b' = fetchSuggestions query b
      in if superseded then b'\<lparr>ui := settle (Inl AbortError) (ui b')\<rparr> else b')"

text \<open>
  The input listener, lines 72 to 91, at time \<open>now\<close>, after the user has changed the
  value of the input to \<open>v\<close>: the value as the control holds it and \<^verbatim>\<open>input.value\<close>
  reads it.
\<close>

definition onInput :: "nat \<Rightarrow> string \<Rightarrow> browser \<Rightarrow> browser" where
  "onInput now v b =
     (let w = (ui b)\<lparr>inputValue := v\<rparr>; query = trim v in
      if length query < 2 then b\<lparr>ui := clearSuggestions w\<rparr>
      else
        b\<lparr>ui := w\<lparr>debounceTimer := Some (nextTimer b)\<rparr>,
          nextTimer := Suc (nextTimer b),
          activeTimers :=
            clearTimeout (debounceTimer w) (activeTimers b)
              @ [(nextTimer b, \<lparr>timerQuery = query, due = now + 180\<rparr>)]\<rparr>)"

subsection \<open>Events\<close>

text \<open>
  What the event loop can run, one task at a time: the four listeners, the callback
  of a timer, and the settling of the promises of a request. \<open>Response r status\<close>:
  \<^verbatim>\<open>fetch\<close> of request \<open>r\<close> answers with a status. \<open>FetchFails r\<close>: it rejects with a
  TypeError, the network having failed. \<open>Body r result\<close>: \<^verbatim>\<open>response.json()\<close> of
  request \<open>r\<close> settles.
\<close>

datatype event =
    Input string
  | KeyDown key
  | MouseDown "nat option"
  | Click bool
  | Timeout nat
  | Response nat nat
  | FetchFails nat
  | Body nat "error + jsval"

definition setPhase :: "nat \<Rightarrow> phase \<Rightarrow> request list \<Rightarrow> request list" where
  "setPhase r p rs = rs[r := (rs ! r)\<lparr>phase := p\<rparr>]"

definition phaseOf :: "browser \<Rightarrow> nat \<Rightarrow> phase option" where
  "phaseOf b r = (if r < length (requests b) then Some (phase (requests b ! r)) else None)"

text \<open>
  One task at time \<open>now\<close>. The platform runs a timer's callback only while the timer
  is active and not before it is due, and settles a promise only of a request that is
  waiting for it.
\<close>

fun step :: "nat \<times> event \<Rightarrow> browser \<Rightarrow> browser" where
  "step (now, Input v) b = onInput now v b"
| "step (now, KeyDown k) b = b\<lparr>ui := after (keydown k (ui b))\<rparr>"
| "step (now, MouseDown target) b = b\<lparr>ui := mousedown target (ui b)\<rparr>"
| "step (now, Click insideForm) b = b\<lparr>ui := documentClick insideForm (ui b)\<rparr>"
| "step (now, Timeout h) b =
     (case map_of (activeTimers b) h of
        None \<Rightarrow> b
      | Some t \<Rightarrow>
          if due t \<le> now
          then timerCallback (timerQuery t) (b\<lparr>activeTimers := clearTimeout (Some h) (activeTimers b)\<rparr>)
          else b)"
| "step (now, Response r status) b =
     (if phaseOf b r = Some Fetching then
        (case onResponse status of
           None \<Rightarrow> b\<lparr>requests := setPhase r ReadingBody (requests b)\<rparr>
         | Some result \<Rightarrow>
             b\<lparr>ui := settle result (ui b), requests := setPhase r Settled (requests b)\<rparr>)
      else b)"
| "step (now, FetchFails r) b =
     (if phaseOf b r = Some Fetching then
        b\<lparr>ui := settle (Inl TypeError) (ui b), requests := setPhase r Settled (requests b)\<rparr>
      else b)"
| "step (now, Body r result) b =
     (if phaseOf b r = Some ReadingBody then
        b\<lparr>ui := settle (onJson result) (ui b), requests := setPhase r Settled (requests b)\<rparr>
      else b)"

definition run :: "(nat \<times> event) list \<Rightarrow> browser \<Rightarrow> browser" where
  "run es b = fold step es b"

subsection \<open>Initialisation\<close>

text \<open>
  Lines 2 to 7 and 17 to 19. The document as the script finds it: the value of
  \<^verbatim>\<open>#book-input\<close> and the rows and the class of \<^verbatim>\<open>#suggestions\<close>, each \<open>None\<close> when
  \<^verbatim>\<open>querySelector\<close> finds no such element.
\<close>

record document =
  bookInput :: "string option"
  suggestions :: "(li list \<times> bool) option"

datatype listener = InputInput | SuggestionsMousedown | InputKeydown | DocumentClick

text \<open>What the script leaves behind: the listeners it has installed and its state.\<close>

record script =
  listeners :: "listener list"
  state :: "browser option"

definition start :: "string \<Rightarrow> li list \<Rightarrow> bool \<Rightarrow> browser" where
  "start v items shown =
     \<lparr>ui = \<lparr>inputValue = v, listItems = items, classShow = shown, activeIndex = -1,
            debounceTimer = None, controller = None\<rparr>,
      nextTimer = 1, activeTimers = [], requests = []\<rparr>"

definition init :: "document \<Rightarrow> script" where
  "init d =
     (case bookInput d of
        None \<Rightarrow> \<lparr>listeners = [], state = None\<rparr>
      | Some v \<Rightarrow>
          (case suggestions d of
             None \<Rightarrow> \<lparr>listeners = [], state = None\<rparr>
           | Some (items, shown) \<Rightarrow>
               \<lparr>listeners = [InputInput, SuggestionsMousedown, InputKeydown, DocumentClick],
                state = Some (start v items shown)\<rparr>))"

text \<open>The listener that an event of the page needs; timers and promises need none.\<close>

fun listenerOf :: "event \<Rightarrow> listener option" where
  "listenerOf (Input v) = Some InputInput"
| "listenerOf (KeyDown k) = Some InputKeydown"
| "listenerOf (MouseDown target) = Some SuggestionsMousedown"
| "listenerOf (Click insideForm) = Some DocumentClick"
| "listenerOf e = None"

text \<open>An event reaches the script only through a listener that is installed.\<close>

definition dispatch :: "nat \<times> event \<Rightarrow> script \<Rightarrow> script" where
  "dispatch e sc =
     (case state sc of
        None \<Rightarrow> sc
      | Some b \<Rightarrow>
          (case listenerOf (snd e) of
             None \<Rightarrow> sc\<lparr>state := Some (step e b)\<rparr>
           | Some l \<Rightarrow> if l \<in> set (listeners sc) then sc\<lparr>state := Some (step e b)\<rparr> else sc))"

subsection \<open>Traces\<close>

text \<open>The queries of the requests made so far, oldest first.\<close>

definition issued :: "browser \<Rightarrow> string list" where
  "issued b = map paramQ (requests b)"

text \<open>
  A burst of typing after an input at time \<open>t0\<close>: every event comes less than 180 ms
  after the latest input before it, and every input holds a query of two characters
  or more. Other events may come in between.
\<close>

fun quiet :: "nat \<Rightarrow> (nat \<times> event) list \<Rightarrow> bool" where
  "quiet t0 [] = True"
| "quiet t0 ((t, Input v) # es) =
     (t0 \<le> t \<and> t < t0 + 180 \<and> 2 \<le> length (trim v) \<and> quiet t es)"
| "quiet t0 ((t, e) # es) = (t0 \<le> t \<and> t < t0 + 180 \<and> quiet t0 es)"

text \<open>The time and the trimmed query of the last input of a trace.\<close>

fun lastInput :: "nat \<times> string \<Rightarrow> (nat \<times> event) list \<Rightarrow> nat \<times> string" where
  "lastInput cur [] = cur"
| "lastInput cur ((t, Input v) # es) = lastInput (t, trim v) es"
| "lastInput cur (e # es) = lastInput cur es"

text \<open>A body whose field \<^verbatim>\<open>books\<close> is a list of strings.\<close>

definition booksBody :: "string list \<Rightarrow> error + jsval" where
  "booksBody ss = Inr (JObj [(''books'', JArr (map JStr ss))])"

text \<open>
  The most recent request; the invariant of the requests: the controller in hand is
  that of the most recent request, and no other request is in flight.
\<close>

definition latest :: "browser \<Rightarrow> nat option" where
  "latest b = (if requests b = [] then None else Some (length (requests b) - 1))"

definition oneLive :: "browser \<Rightarrow> bool" where
  "oneLive b \<longleftrightarrow>
     controller (ui b) = latest b
     \<and> (\<forall>r. inFlight (requests b) r \<longrightarrow> Suc r = length (requests b))"

text \<open>
  The invariant of the timers: an active timer is the one \<^verbatim>\<open>debounceTimer\<close> names.
  During a burst: exactly one timer is active, with query \<open>q\<close>, armed at \<open>t0\<close>.
\<close>

definition timersOwned :: "browser \<Rightarrow> bool" where
  "timersOwned b \<longleftrightarrow> (\<forall>x\<in>set (activeTimers b). debounceTimer (ui b) = Some (fst x))"

definition armed :: "browser \<Rightarrow> nat \<Rightarrow> string \<Rightarrow> nat \<Rightarrow> bool" where
  "armed b h q t0 \<longleftrightarrow>
     activeTimers b = [(h, \<lparr>timerQuery = q, due = t0 + 180\<rparr>)]
     \<and> debounceTimer (ui b) = Some h"

text \<open>
  The dropdown as the script keeps it: shown exactly when it has rows, and the active
  index either -1 or the index of a row.
\<close>

definition wellFormed :: "widget \<Rightarrow> bool" where
  "wellFormed w \<longleftrightarrow>
     classShow w = (listItems w \<noteq> [])
     \<and> -1 \<le> activeIndex w \<and> activeIndex w < int (length (listItems w))"

text \<open>
  Two queries, \<open>du\<close> and then \<open>dun\<close>, each sent when its timer runs; the second
  request is answered.
\<close>

definition supersede :: "(nat \<times> event) list" where
  "supersede = [(0, Input ''du''), (180, Timeout 1), (200, Input ''dun''), (380, Timeout 2)]"

definition typing :: "(nat \<times> event) list" where
  "typing = supersede @ [(400, Response 1 200), (410, Body 1 (booksBody [''Dune'']))]"

text \<open>
  The query \<open>du\<close> is answered with one book whose title has a line break in it, and
  ArrowDown selects its row.
\<close>

definition twoLines :: "(nat \<times> event) list" where
  "twoLines =
     [(0, Input ''du''), (180, Timeout 1), (200, Response 0 200),
      (210, Body 0 (booksBody [''Dune'' @ [CHR 0x0A] @ ''Messiah''])),
      (300, KeyDown ArrowDown)]"

text \<open>What follows an input of \<open>du\<close> at time 0 in a burst that ends with \<open>dune\<close>.\<close>

definition burst :: "(nat \<times> event) list" where
  "burst =
     [(50, Timeout 1), (100, Input ''dun''), (120, KeyDown ArrowDown), (250, Input ''dune '')]"

text \<open>
  The query \<open>du\<close>, shortened to \<open>d\<close> 100 ms later; then the timer of the first
  input runs and its request is answered.
\<close>

definition backspace :: "(nat \<times> event) list" where
  "backspace = [(0, Input ''du''), (100, Input ''d'')]"

definition lateFetch :: "(nat \<times> event) list" where
  "lateFetch = [(180, Timeout 1), (230, Response 0 200), (240, Body 0 (booksBody [''Dune'']))]"

subsection \<open>Rows as rendered\<close>

text \<open>The row that line 34 produces for a string: two attributes and the string as text.\<close>

definition renderedRow :: "nat \<Rightarrow> string \<Rightarrow> li" where
  "renderedRow index book =
     \<lparr>attributes = [(''data-index'', showNat index), (''role'', ''option'')],
      textContent = book\<rparr>"

text \<open>
  A string as the parser hands it back as text: line breaks normalised, NUL dropped.
\<close>

definition htmlText :: "string \<Rightarrow> string" where
  "htmlText s = filter (\<lambda>c. c \<noteq> CHR 0x00) (normalizeNewlines s)"

text \<open>
  The strings of a list of books, when all of them are strings; and the rows that the
  dropdown shows for what \<^verbatim>\<open>fetchSuggestions\<close> ends with: one row for each string of
  a list of strings, and none for anything else.
\<close>

fun strings :: "jsval list \<Rightarrow> string list option" where
  "strings [] = Some []"
| "strings (book # books) =
     (case book of
        JStr s \<Rightarrow> (case strings books of None \<Rightarrow> None | Some ss \<Rightarrow> Some (s # ss))
      | _ \<Rightarrow> None)"

definition shownFor :: "error + jsval \<Rightarrow> li list" where
  "shownFor result =
     (case result of
        Inr (JArr books) \<Rightarrow>
          (case strings books of
             None \<Rightarrow> []
           | Some ss \<Rightarrow> map (\<lambda>(k, s). renderedRow k (htmlText s)) (enumerate 0 ss))
      | _ \<Rightarrow> [])"

text \<open>The entity that stands for a character, as the specification lists the five.\<close>

definition entity :: "char \<Rightarrow> string" where
  "entity c =
     (if c = CHR ''&'' then ''&amp;''
      else if c = CHR ''<'' then ''&lt;''
      else if c = CHR ''>'' then ''&gt;''
      else if c = CHR 0x22 then ''&quot;''
      else if c = CHR 0x27 then ''&#039;''
      else [c])"

text \<open>Whether a parsed body is an object with a property \<^verbatim>\<open>books\<close>.\<close>

definition hasBooks :: "jsval \<Rightarrow> bool" where
  "hasBooks payload =
     (case payload of JObj props \<Rightarrow> ''books'' \<in> fst ` set props | _ \<Rightarrow> False)"

text \<open>An open dropdown of three rows with no selection, after the query \<open>du\<close>.\<close>

definition dune :: widget where
  "dune =
     \<lparr>inputValue = ''du'',
      listItems = [renderedRow 0 ''Dune'', renderedRow 1 ''Dune Messiah'',
                   renderedRow 2 ''Foundation''],
      classShow = True, activeIndex = -1, debounceTimer = None, controller = None\<rparr>"

section \<open>Properties\<close>

subsection \<open>Escaping and reading back\<close>

declare showNat.simps [simp del]

lemma replaceAll_append: "replaceAll c r (xs @ ys) = replaceAll c r xs @ replaceAll c r ys"
  by (induction xs) simp_all

lemma escapeHtml_Nil: "escapeHtml [] = []"
  by (simp add: escapeHtml_def)

lemma escapeHtml_Cons: "escapeHtml (x # xs) = entity x @ escapeHtml xs"
  by (simp add: escapeHtml_def entity_def replaceAll_append)

lemma escapeHtml_entities: "escapeHtml s = concat (map entity s)"
  by (induction s) (simp_all add: escapeHtml_Nil escapeHtml_Cons)

lemma escapeHtml_empty: "escapeHtml s = [] \<longleftrightarrow> s = []"
  by (cases s) (simp_all add: escapeHtml_Nil escapeHtml_Cons entity_def)

lemma unescapeHtml_entity: "unescapeHtml (entity x @ rest) = x # unescapeHtml rest"
  by (simp add: entity_def)

lemma unescape_escape: "unescapeHtml (escapeHtml s) = s"
  by (induction s) (simp_all add: escapeHtml_Nil escapeHtml_Cons unescapeHtml_entity)

lemma entity_chars:
  "c \<in> set (entity x) \<Longrightarrow> c \<notin> {CHR ''<'', CHR ''>'', CHR 0x22, CHR 0x27}"
  by (auto simp: entity_def split: if_splits)

lemma escapeHtml_chars:
  "c \<in> set (escapeHtml s) \<Longrightarrow> c \<notin> {CHR ''<'', CHR ''>'', CHR 0x22, CHR 0x27}"
  using entity_chars by (induction s) (auto simp add: escapeHtml_Nil escapeHtml_Cons)

lemma unescapeHtml_plain: "CHR ''&'' \<notin> set v \<Longrightarrow> unescapeHtml v = v"
  by (induction v) auto

lemma digit_char:
  "d < 10 \<Longrightarrow> digit d \<noteq> CHR 0x22 \<and> digit d \<noteq> CHR ''&'' \<and> digit d \<noteq> CHR 0x0D"
proof -
  assume d: "d < 10"
  have "(of_char (digit d) :: nat) = 48 + d"
    using d by (simp add: digit_def)
  then show ?thesis by auto
qed

lemma showNat_chars:
  "c \<in> set (showNat n) \<Longrightarrow> c \<noteq> CHR 0x22 \<and> c \<noteq> CHR ''&'' \<and> c \<noteq> CHR 0x0D"
proof (induction n rule: showNat.induct)
  case (1 n)
  show ?case
  proof (cases "n < 10")
    case True
    with "1.prems" show ?thesis
      using digit_char [of n] by (simp add: showNat.simps [of n])
  next
    case False
    with "1.prems" have "c \<in> set (showNat (n div 10)) \<or> c = digit (n mod 10)"
      by (auto simp: showNat.simps [of n])
    then show ?thesis
      using "1.IH" False digit_char [of "n mod 10"] by auto
  qed
qed

text \<open>Character data without \<open><\<close> stays character data; a quoted value runs to its quote.\<close>

lemma tokens_Data_run:
  "\<forall>c\<in>set x. c \<noteq> CHR ''<'' \<Longrightarrow>
     tokens (Data raw) (x @ rest) = tokens (Data (raw @ x)) rest"
  by (induction x arbitrary: raw) simp_all

lemma tokens_Quoted_run:
  "\<forall>c\<in>set v. c \<noteq> q \<Longrightarrow>
     tokens (Quoted q t n v0) (v @ q # rest) = tokens (BeforeAttr (withAttr t n (v0 @ v))) rest"
  by (induction v arbitrary: v0) simp_all

text \<open>
  Normalising the line breaks of a rendered row normalises those of the book and
  changes nothing else.
\<close>

lemma normalizeNewlines_plain:
  "CHR 0x0D \<notin> set x \<Longrightarrow> normalizeNewlines (x @ y) = x @ normalizeNewlines y"
  by (induction x) auto

lemma normalizeNewlines_CRLF:
  "normalizeNewlines (CHR 0x0D # CHR 0x0A # xs) = CHR 0x0A # normalizeNewlines xs"
  by simp

lemma normalizeNewlines_CR:
  "take 1 xs \<noteq> [CHR 0x0A] \<Longrightarrow> normalizeNewlines (CHR 0x0D # xs) = CHR 0x0A # normalizeNewlines xs"
  by simp

lemma normalizeNewlines_other:
  "c \<noteq> CHR 0x0D \<Longrightarrow> normalizeNewlines (c # xs) = c # normalizeNewlines xs"
  by simp

lemma entity_CR: "CHR 0x0D \<notin> set (entity c) \<longleftrightarrow> c \<noteq> CHR 0x0D"
  by (auto simp: entity_def)

lemma escapeHtml_first:
  "take 1 (escapeHtml cs @ y) = [CHR 0x0A] \<longleftrightarrow>
     (if cs = [] then take 1 y = [CHR 0x0A] else take 1 cs = [CHR 0x0A])"
  by (cases cs) (auto simp: escapeHtml_Nil escapeHtml_Cons entity_def)

lemma normalizeNewlines_escapeHtml:
  "take 1 y \<noteq> [CHR 0x0A] \<Longrightarrow>
     normalizeNewlines (escapeHtml s @ y) = escapeHtml (normalizeNewlines s) @ normalizeNewlines y"
proof (induction s rule: length_induct)
  case (1 s)
  note y = \<open>take 1 y \<noteq> [CHR 0x0A]\<close>
  have IH: "normalizeNewlines (escapeHtml t @ y)
      = escapeHtml (normalizeNewlines t) @ normalizeNewlines y" if "length t < length s" for t
    using 1 that by blast
  show ?case
  proof (cases s)
    case Nil
    then show ?thesis by (simp add: escapeHtml_Nil)
  next
    case (Cons c cs)
    consider (crlf) ds where "c = CHR 0x0D" "cs = CHR 0x0A # ds"
      | (cr) "c = CHR 0x0D" "take 1 cs \<noteq> [CHR 0x0A]"
      | (other) "c \<noteq> CHR 0x0D"
      by (cases cs) auto
    then show ?thesis
    proof cases
      case crlf
      have "normalizeNewlines (escapeHtml s @ y)
          = normalizeNewlines (CHR 0x0D # CHR 0x0A # (escapeHtml ds @ y))"
        using Cons crlf by (simp add: escapeHtml_Cons entity_def)
      also have "\<dots> = CHR 0x0A # normalizeNewlines (escapeHtml ds @ y)"
        by (rule normalizeNewlines_CRLF)
      also have "\<dots> = CHR 0x0A # escapeHtml (normalizeNewlines ds) @ normalizeNewlines y"
        using IH [of ds] Cons crlf by simp
      also have "\<dots> = escapeHtml (CHR 0x0A # normalizeNewlines ds) @ normalizeNewlines y"
        by (simp add: escapeHtml_Cons entity_def)
      also have "CHR 0x0A # normalizeNewlines ds = normalizeNewlines s"
        using Cons crlf normalizeNewlines_CRLF [of ds] by simp
      finally show ?thesis .
    next
      case cr
      have first: "take 1 (escapeHtml cs @ y) \<noteq> [CHR 0x0A]"
        using cr y by (simp only: escapeHtml_first split: if_splits) simp
      have "normalizeNewlines (escapeHtml s @ y)
          = normalizeNewlines (CHR 0x0D # (escapeHtml cs @ y))"
        using Cons cr by (simp add: escapeHtml_Cons entity_def)
      also have "\<dots> = CHR 0x0A # normalizeNewlines (escapeHtml cs @ y)"
        using first by (rule normalizeNewlines_CR)
      also have "\<dots> = CHR 0x0A # escapeHtml (normalizeNewlines cs) @ normalizeNewlines y"
        using IH [of cs] Cons by simp
      also have "\<dots> = escapeHtml (CHR 0x0A # normalizeNewlines cs) @ normalizeNewlines y"
        by (simp add: escapeHtml_Cons entity_def)
      also have "CHR 0x0A # normalizeNewlines cs = normalizeNewlines s"
        using Cons cr normalizeNewlines_CR [of cs] by simp
      finally show ?thesis .
    next
      case other
      have "normalizeNewlines (escapeHtml s @ y)
          = normalizeNewlines (entity c @ (escapeHtml cs @ y))"
        using Cons by (simp add: escapeHtml_Cons)
      also have "\<dots> = entity c @ normalizeNewlines (escapeHtml cs @ y)"
        using other by (intro normalizeNewlines_plain) (simp add: entity_CR)
      also have "\<dots> = entity c @ escapeHtml (normalizeNewlines cs) @ normalizeNewlines y"
        using IH [of cs] Cons by simp
      also have "\<dots> = escapeHtml (c # normalizeNewlines cs) @ normalizeNewlines y"
        by (simp add: escapeHtml_Cons)
      also have "c # normalizeNewlines cs = normalizeNewlines s"
        using Cons other normalizeNewlines_other [of c cs] by simp
      finally show ?thesis .
    qed
  qed
qed

lemma normalizeNewlines_rowMarkup:
  "normalizeNewlines (rowMarkup i s @ rest)
     = rowMarkup i (normalizeNewlines s) @ normalizeNewlines rest"
proof -
  have digits: "CHR 0x0D \<notin> set (showNat i)"
    using showNat_chars by blast
  have "normalizeNewlines (escapeHtml s @ ''</li>'' @ rest)
      = escapeHtml (normalizeNewlines s) @ normalizeNewlines (''</li>'' @ rest)"
    by (rule normalizeNewlines_escapeHtml) simp
  also have "normalizeNewlines (''</li>'' @ rest) = ''</li>'' @ normalizeNewlines rest"
    by (rule normalizeNewlines_plain) simp
  finally have tail: "normalizeNewlines (escapeHtml s @ ''</li>'' @ rest)
      = escapeHtml (normalizeNewlines s) @ ''</li>'' @ normalizeNewlines rest" .
  have "normalizeNewlines
         ((''<li data-index='' @ [CHR 0x22] @ showNat i @ [CHR 0x22] @ '' role='' @ [CHR 0x22]
            @ ''option'' @ [CHR 0x22] @ ''>'') @ escapeHtml s @ ''</li>'' @ rest)
      = (''<li data-index='' @ [CHR 0x22] @ showNat i @ [CHR 0x22] @ '' role='' @ [CHR 0x22]
            @ ''option'' @ [CHR 0x22] @ ''>'') @ normalizeNewlines (escapeHtml s @ ''</li>'' @ rest)"
    by (rule normalizeNewlines_plain) (use digits in simp)
  with tail show ?thesis by (simp add: rowMarkup_def)
qed

lemma tokens_rowMarkup:
  "tokens (Data []) (rowMarkup i s @ rest) =
     StartTag ''li'' [(''data-index'', showNat i), (''role'', ''option'')]
       # flush (escapeHtml s) @ EndTag ''li'' # tokens (Data []) rest"
proof -
  have q: "\<forall>c\<in>set (showNat i). c \<noteq> CHR 0x22"
    using showNat_chars by blast
  have amp: "CHR ''&'' \<notin> set (showNat i)"
    using showNat_chars by blast
  have lt: "\<forall>c\<in>set (escapeHtml s). c \<noteq> CHR ''<''"
    using escapeHtml_chars by blast
  show ?thesis
    by (simp add: rowMarkup_def isAlpha_def isSpace_def asciiLower_def flush_def emitTag_def
        withAttr_def tokens_Quoted_run [OF q] tokens_Data_run [OF lt]
        unescapeHtml_plain [OF amp])
qed

lemma children_row:
  "children None (StartTag ''li'' [(''data-index'', showNat i), (''role'', ''option'')]
       # flush (escapeHtml s) @ EndTag ''li'' # ts)
     = renderedRow i (filter (\<lambda>c. c \<noteq> CHR 0x00) s) # children None ts"
  by (simp add: flush_def createLi_def closeLi_def renderedRow_def unescape_escape
      escapeHtml_empty)

lemma setInnerHTML_row:
  "setInnerHTML (rowMarkup i s @ rest) = renderedRow i (htmlText s) # setInnerHTML rest"
  by (simp only: setInnerHTML_def normalizeNewlines_rowMarkup tokens_rowMarkup children_row
      htmlText_def)

lemma htmlText_plain:
  "CHR 0x0D \<notin> set s \<Longrightarrow> CHR 0x00 \<notin> set s \<Longrightarrow> htmlText s = s"
  using normalizeNewlines_plain [of s "[]"] by (auto simp: htmlText_def filter_id_conv)

lemma setInnerHTML_empty: "setInnerHTML [] = []"
  by (simp add: setInnerHTML_def flush_def closeLi_def)

lemma joinRows_strings:
  "\<exists>markup. joinRows i (map JStr ss) = Inr markup
     \<and> setInnerHTML markup = map (\<lambda>(k, s). renderedRow k (htmlText s)) (enumerate i ss)"
proof (induction ss arbitrary: i)
  case Nil
  show ?case by (simp add: setInnerHTML_empty)
next
  case (Cons s ss)
  from Cons [of "Suc i"] obtain m where
    m: "joinRows (Suc i) (map JStr ss) = Inr m"
       "setInnerHTML m = map (\<lambda>(k, s). renderedRow k (htmlText s)) (enumerate (Suc i) ss)"
    by blast
  then show ?case by (simp add: setInnerHTML_row)
qed

lemma renderSuggestions_strings:
  "ss \<noteq> [] \<Longrightarrow>
     renderSuggestions (JArr (map JStr ss)) w =
       Inr (w\<lparr>listItems := map (\<lambda>(k, s). renderedRow k (htmlText s)) (enumerate 0 ss),
              classShow := True, activeIndex := -1\<rparr>)"
  using joinRows_strings [of 0 ss] by (auto simp: renderSuggestions_def)

lemma textContent_renderedRows:
  "map textContent (map (\<lambda>(k, s). renderedRow k (htmlText s)) (enumerate i ss))
     = map htmlText ss"
  by (induction ss arbitrary: i) (simp_all add: renderedRow_def)

text \<open>
  C2, as stated, fails where it speaks of reading back: a CR in a suggestion comes
  back from the parsed markup as LF, and a NUL does not come back at all.
\<close>

theorem line_break_not_read_back:
  "map textContent (setInnerHTML (rowMarkup 0 [CHR ''a'', CHR 0x0D, CHR ''b'']))
     = [[CHR ''a'', CHR 0x0A, CHR ''b'']]
   \<and> map textContent (setInnerHTML (rowMarkup 0 [CHR ''a'', CHR 0x0D, CHR ''b'']))
     \<noteq> [[CHR ''a'', CHR 0x0D, CHR ''b'']]
   \<and> map textContent (setInnerHTML (rowMarkup 0 [CHR ''c'', CHR 0x00, CHR ''d''])) = [''cd'']
   \<and> map textContent (setInnerHTML (rowMarkup 0 [CHR ''c'', CHR 0x00, CHR ''d'']))
     \<noteq> [[CHR ''c'', CHR 0x00, CHR ''d'']]"
  using setInnerHTML_row [of 0 "[CHR ''a'', CHR 0x0D, CHR ''b'']" "[]"]
    setInnerHTML_row [of 0 "[CHR ''c'', CHR 0x00, CHR ''d'']" "[]"]
  by (simp add: setInnerHTML_empty htmlText_def renderedRow_def)

text \<open>
  C2, amended. \<^verbatim>\<open>escapeHtml\<close> puts the entity in the place of each of the five
  characters and leaves every other character as it is; its result holds no \<open><\<close>,
  \<open>>\<close>, double or single quote; decoding the references gives the string back. A
  rendered list of strings, read back from the parsed markup, has one row for each
  string, whose text content is that string with every CR LF and every single CR
  turned into LF and every NUL taken out: the string itself, character for character,
  when it holds neither CR nor NUL.
\<close>

theorem escapeHtml_round_trip:
  "escapeHtml s = concat (map entity s)
   \<and> CHR ''<'' \<notin> set (escapeHtml s) \<and> CHR ''>'' \<notin> set (escapeHtml s)
   \<and> CHR 0x22 \<notin> set (escapeHtml s) \<and> CHR 0x27 \<notin> set (escapeHtml s)
   \<and> unescapeHtml (escapeHtml s) = s
   \<and> setInnerHTML (rowMarkup i s) = [renderedRow i (htmlText s)]
   \<and> textContent (renderedRow i (htmlText s)) = htmlText s
   \<and> (\<exists>w'. renderSuggestions (JArr (map JStr (s # ss))) w = Inr w'
          \<and> map textContent (listItems w') = map htmlText (s # ss))
   \<and> (CHR 0x0D \<notin> set s \<and> CHR 0x00 \<notin> set s \<longrightarrow> htmlText s = s)"
proof -
  have "setInnerHTML (rowMarkup i s @ []) = renderedRow i (htmlText s) # setInnerHTML []"
    by (rule setInnerHTML_row)
  then have row: "setInnerHTML (rowMarkup i s) = [renderedRow i (htmlText s)]"
    by (simp add: setInnerHTML_empty)
  have "map textContent (map (\<lambda>(k, s). renderedRow k (htmlText s)) (enumerate 0 (s # ss)))
      = map htmlText (s # ss)"
    by (rule textContent_renderedRows)
  then have rows: "\<exists>w'. renderSuggestions (JArr (map JStr (s # ss))) w = Inr w'
      \<and> map textContent (listItems w') = map htmlText (s # ss)"
    using renderSuggestions_strings [of "s # ss" w] by simp
  show ?thesis
    using escapeHtml_chars [of _ s] row rows htmlText_plain [of s]
    by (auto simp: escapeHtml_entities [symmetric] unescape_escape renderedRow_def)
qed

theorem escapeHtml_round_trip_witness:
  "escapeHtml ''<script>alert(1)</script>'' = ''&lt;script&gt;alert(1)&lt;/script&gt;''
   \<and> unescapeHtml (escapeHtml ''<script>alert(1)</script>'') = ''<script>alert(1)</script>''
   \<and> map textContent (setInnerHTML (rowMarkup 0 ''<script>alert(1)</script>''))
       = [''<script>alert(1)</script>'']
   \<and> (\<exists>w'. renderSuggestions (JArr [JStr ''Dune'', JStr ''Dune Messiah'']) dune = Inr w'
          \<and> map textContent (listItems w') = [''Dune'', ''Dune Messiah''])"
  using escapeHtml_round_trip [of "''<script>alert(1)</script>''" 0 "[]" dune]
    escapeHtml_round_trip [of "''Dune''" 0 "[''Dune Messiah'']" dune]
  by (simp add: entity_def renderedRow_def htmlText_def)

subsection \<open>The keyboard\<close>

lemma js_rem_nonneg: "0 \<le> a \<Longrightarrow> 0 < b \<Longrightarrow> js_rem a b = a mod b"
  by (cases "a = 0") (simp_all add: js_rem_def)

text \<open>
  Where the arrow keys lead, on a dropdown with rows: ArrowDown to the next row, from
  no selection to the first and from the last to the first; ArrowUp from a selected row
  to the row before, from the first to the last; ArrowUp from no selection, with two
  rows or more, to the row before the last.
\<close>

lemma arrow_keys_index:
  assumes "listItems w \<noteq> []" and "-1 \<le> activeIndex w"
    and "activeIndex w < int (length (listItems w))"
  shows "activeIndex (after (keydown ArrowDown w))
           = (activeIndex w + 1) mod int (length (listItems w))"
    and "0 \<le> activeIndex w \<Longrightarrow>
         activeIndex (after (keydown ArrowUp w))
           = (activeIndex w - 1 + int (length (listItems w))) mod int (length (listItems w))"
    and "activeIndex w = -1 \<Longrightarrow> 2 \<le> length (listItems w) \<Longrightarrow>
         activeIndex (after (keydown ArrowUp w)) = int (length (listItems w)) - 2"
proof -
  show "activeIndex (after (keydown ArrowDown w))
           = (activeIndex w + 1) mod int (length (listItems w))"
    using assms by (simp add: keydown_def Let_def setActiveSuggestion_def js_rem_nonneg)
  show "activeIndex (after (keydown ArrowUp w))
           = (activeIndex w - 1 + int (length (listItems w))) mod int (length (listItems w))"
    if "0 \<le> activeIndex w"
    using assms that by (simp add: keydown_def Let_def setActiveSuggestion_def js_rem_nonneg)
  show "activeIndex (after (keydown ArrowUp w)) = int (length (listItems w)) - 2"
    if "activeIndex w = -1" and "2 \<le> length (listItems w)"
  proof -
    have "js_rem (int (length (listItems w)) - 2) (int (length (listItems w)))
        = (int (length (listItems w)) - 2) mod int (length (listItems w))"
      using assms that by (intro js_rem_nonneg) simp_all
    also have "\<dots> = int (length (listItems w)) - 2"
      using that by (intro mod_pos_pos_trivial) simp_all
    finally show ?thesis
      using assms that by (simp add: keydown_def Let_def setActiveSuggestion_def)
  qed
qed

lemma js_rem_down:
  assumes "-1 \<le> a" and "0 < n"
  shows "0 \<le> js_rem (a + 1) n \<and> js_rem (a + 1) n < n"
  using assms by (simp add: js_rem_nonneg)

lemma js_rem_up:
  assumes "-1 \<le> a" and "0 < n"
  shows "0 \<le> js_rem (a - 1 + n) n \<and> js_rem (a - 1 + n) n < n"
proof (cases "0 \<le> a - 1 + n")
  case True
  with assms show ?thesis by (simp add: js_rem_nonneg)
next
  case False
  with assms have "a = -1" and "n = 1" by simp_all
  then show ?thesis by (simp add: js_rem_def)
qed

lemma enumerate_empty: "enumerate i xs = [] \<longleftrightarrow> xs = []"
  by (cases xs) simp_all

text \<open>
  C3. With three rows and no selection, ArrowUp computes \<open>(-1 - 1 + 3) % 3 = 1\<close>: the
  active index becomes 1, the middle row, not 2, the last one. (ArrowDown from the last
  row does wrap to 0.)
\<close>

theorem arrowUp_without_selection:
  "activeIndex (after (keydown ArrowUp dune)) = 1
   \<and> activeIndex (after (keydown ArrowUp dune)) \<noteq> 2
   \<and> activeIndex (after (keydown ArrowDown (dune\<lparr>activeIndex := 2\<rparr>))) = 0"
  by (simp add: keydown_def dune_def setActiveSuggestion_def js_rem_def)

text \<open>
  C7, amended. Enter on a dropdown whose active index is row \<open>i\<close> copies the text of
  row \<open>i\<close> into the input, without the line breaks (LF, CR) that a text input does not
  keep, so the text itself when it has none, and clears the suggestions, with the
  default action suppressed; Enter with no selection changes nothing and does not call
  preventDefault.
\<close>

theorem enter_commits_selection:
  "(i < length (listItems w) \<longrightarrow> activeIndex w = int i \<longrightarrow>
      keydown Enter w =
        \<lparr>after = w\<lparr>inputValue := sanitizeValue (textContent (listItems w ! i)),
                    listItems := [], classShow := False, activeIndex := -1\<rparr>,
         defaultPrevented = True, thrown = None\<rparr>
      \<and> (CHR 0x0A \<notin> set (textContent (listItems w ! i))
           \<and> CHR 0x0D \<notin> set (textContent (listItems w ! i)) \<longrightarrow>
         inputValue (after (keydown Enter w)) = textContent (listItems w ! i)))
   \<and> (activeIndex w = -1 \<longrightarrow>
      keydown Enter w = \<lparr>after = w, defaultPrevented = False, thrown = None\<rparr>)"
  by (auto simp: keydown_def clearSuggestions_def Let_def sanitizeValue_def filter_id_conv)

theorem enter_commits_selection_witness:
  "inputValue (after (keydown Enter (dune\<lparr>activeIndex := 1\<rparr>))) = ''Dune Messiah''
   \<and> listItems (after (keydown Enter (dune\<lparr>activeIndex := 1\<rparr>))) = []
   \<and> activeIndex (after (keydown Enter (dune\<lparr>activeIndex := 1\<rparr>))) = -1
   \<and> defaultPrevented (keydown Enter (dune\<lparr>activeIndex := 1\<rparr>))
   \<and> keydown Enter dune = \<lparr>after = dune, defaultPrevented = False, thrown = None\<rparr>"
  using enter_commits_selection [of 1 "dune\<lparr>activeIndex := 1\<rparr>"]
    enter_commits_selection [of 0 dune]
  by (simp add: dune_def renderedRow_def sanitizeValue_def)

text \<open>
  C8, as stated, fails: Enter on an open, non-empty dropdown with no selection is not
  intercepted.
\<close>

theorem enter_not_always_suppressed:
  "\<not> (defaultPrevented (keydown Enter dune) \<longleftrightarrow> (classShow dune \<and> listItems dune \<noteq> []))"
  by (simp add: keydown_def dune_def)

text \<open>
  C8, amended. For ArrowUp and ArrowDown the default action is suppressed exactly when
  the dropdown has rows; for Enter exactly when it has rows and a row is selected. On an
  empty dropdown none of the three keys is intercepted.
\<close>

theorem default_suppressed_iff:
  "k \<in> {ArrowUp, ArrowDown, Enter} \<Longrightarrow>
     defaultPrevented (keydown k w) \<longleftrightarrow>
       (listItems w \<noteq> [] \<and> (k = Enter \<longrightarrow> 0 \<le> activeIndex w))"
  by (auto simp: keydown_def Let_def)

theorem default_suppressed_iff_witness:
  "defaultPrevented (keydown ArrowUp dune) \<and> defaultPrevented (keydown ArrowDown dune)
   \<and> \<not> defaultPrevented (keydown Enter dune)
   \<and> defaultPrevented (keydown Enter (dune\<lparr>activeIndex := 0\<rparr>))
   \<and> \<not> defaultPrevented (keydown ArrowUp (dune\<lparr>listItems := []\<rparr>))"
  using default_suppressed_iff [of ArrowUp dune] default_suppressed_iff [of ArrowDown dune]
    default_suppressed_iff [of Enter dune]
    default_suppressed_iff [of Enter "dune\<lparr>activeIndex := 0\<rparr>"]
    default_suppressed_iff [of ArrowUp "dune\<lparr>listItems := []\<rparr>"]
  by (simp add: dune_def)

subsection \<open>The mouse\<close>

text \<open>
  C9. A click outside the form empties the dropdown, hides it and resets the active
  index to -1, whatever the selection was; the input's value and the two handles of
  the closure stay as they were.
\<close>

theorem outside_click_clears:
  "documentClick False w =
     w\<lparr>listItems := [], classShow := False, activeIndex := -1\<rparr>
   \<and> inputValue (documentClick False w) = inputValue w
   \<and> debounceTimer (documentClick False w) = debounceTimer w
   \<and> controller (documentClick False w) = controller w"
  by (simp add: documentClick_def clearSuggestions_def)

subsection \<open>What fetchSuggestions returns\<close>

lemma getBooks_absent:
  "payload \<noteq> JNull \<Longrightarrow> payload \<noteq> Undefined \<Longrightarrow> \<not> hasBooks payload \<Longrightarrow> getBooks payload = Inr Undefined"
  by (cases payload) (auto simp: getBooks_def hasBooks_def map_of_eq_None_iff [symmetric])

text \<open>
  C6, amended. On a status outside 200 to 299 \<^verbatim>\<open>fetchSuggestions\<close> returns the empty
  list. On a successful response whose parsed body is any JSON value other than
  \<^verbatim>\<open>null\<close> and has no property \<^verbatim>\<open>books\<close>, it returns the empty list. On the body
  \<^verbatim>\<open>null\<close> it throws a TypeError, and the \<^verbatim>\<open>catch\<close> of the debounced callback clears
  the suggestions.
\<close>

theorem fetchSuggestions_absorbs:
  "(\<not> responseOk status \<longrightarrow> fetchSuggestions_result (Inr status) body = Inr (JArr []))
   \<and> (responseOk status \<longrightarrow> payload \<noteq> JNull \<longrightarrow> payload \<noteq> Undefined \<longrightarrow> \<not> hasBooks payload \<longrightarrow>
        fetchSuggestions_result (Inr status) (Inr payload) = Inr (JArr []))
   \<and> (responseOk status \<longrightarrow>
        fetchSuggestions_result (Inr status) (Inr JNull) = Inl TypeError
        \<and> settle (fetchSuggestions_result (Inr status) (Inr JNull)) w = clearSuggestions w)"
proof -
  have null: "getBooks JNull = Inl TypeError"
    by (simp add: getBooks_def)
  show ?thesis
    by (auto simp: fetchSuggestions_result_def onResponse_def onJson_def getBooks_absent
        truthy_def null settle_def catchError_def)
qed

theorem fetchSuggestions_absorbs_witness:
  "fetchSuggestions_result (Inr 500) (Inr (JObj [(''books'', JArr [JStr ''Dune''])])) = Inr (JArr [])
   \<and> fetchSuggestions_result (Inr 200) (Inr (JObj [(''items'', JArr [JStr ''Dune''])])) = Inr (JArr [])
   \<and> fetchSuggestions_result (Inr 200) (Inr (JArr [JStr ''Dune''])) = Inr (JArr [])
   \<and> fetchSuggestions_result (Inr 204) (Inr JNull) = Inl TypeError
   \<and> settle (fetchSuggestions_result (Inr 204) (Inr JNull)) dune = clearSuggestions dune"
  using fetchSuggestions_absorbs [of 500 "Inr (JObj [(''books'', JArr [JStr ''Dune''])])" JNull dune]
    fetchSuggestions_absorbs [of 200 "Inl TypeError" "JObj [(''items'', JArr [JStr ''Dune''])]" dune]
    fetchSuggestions_absorbs [of 200 "Inl TypeError" "JArr [JStr ''Dune'']" dune]
    fetchSuggestions_absorbs [of 204 "Inl TypeError" "JArr [JStr ''Dune'']" dune]
  by (simp add: responseOk_def hasBooks_def)

text \<open>
  C6, as stated, fails on a successful response whose body is the JSON value
  \<^verbatim>\<open>null\<close>: it has no field \<^verbatim>\<open>books\<close>, and \<^verbatim>\<open>fetchSuggestions\<close> throws.
\<close>

theorem null_body_throws:
  "responseOk 200 \<and> \<not> hasBooks JNull
   \<and> fetchSuggestions_result (Inr 200) (Inr JNull) = Inl TypeError
   \<and> fetchSuggestions_result (Inr 200) (Inr JNull) \<noteq> Inr (JArr [])"
  by (simp add: fetchSuggestions_result_def onResponse_def onJson_def getBooks_def
      responseOk_def hasBooks_def)

subsection \<open>A document without the elements\<close>

lemma dispatch_idle: "dispatch e \<lparr>listeners = [], state = None\<rparr> = \<lparr>listeners = [], state = None\<rparr>"
  by (simp add: dispatch_def)

lemma fold_dispatch_idle:
  "fold dispatch es \<lparr>listeners = [], state = None\<rparr> = \<lparr>listeners = [], state = None\<rparr>"
  by (induction es) (simp_all add: dispatch_idle)

text \<open>
  C10. When the input or the list is missing from the document, the script installs no
  listener and keeps no state, and no event that follows changes that.
\<close>

theorem init_without_elements:
  "bookInput d = None \<or> suggestions d = None \<Longrightarrow>
     init d = \<lparr>listeners = [], state = None\<rparr> \<and> fold dispatch es (init d) = init d"
proof -
  assume "bookInput d = None \<or> suggestions d = None"
  then have "init d = \<lparr>listeners = [], state = None\<rparr>"
    by (auto simp: init_def split: option.splits)
  then show ?thesis by (simp add: fold_dispatch_idle)
qed

theorem init_without_elements_witness:
  "init \<lparr>bookInput = Some ''du'', suggestions = None\<rparr> = \<lparr>listeners = [], state = None\<rparr>
   \<and> init \<lparr>bookInput = None, suggestions = Some ([], False)\<rparr> = \<lparr>listeners = [], state = None\<rparr>
   \<and> fold dispatch [(0, Input ''dune''), (180, Timeout 1), (200, KeyDown ArrowDown), (300, Click False)]
        (init \<lparr>bookInput = None, suggestions = Some ([], False)\<rparr>)
       = init \<lparr>bookInput = None, suggestions = Some ([], False)\<rparr>
   \<and> listeners (init \<lparr>bookInput = Some ''du'', suggestions = Some ([], False)\<rparr>)
       = [InputInput, SuggestionsMousedown, InputKeydown, DocumentClick]"
  using init_without_elements [of "\<lparr>bookInput = Some ''du'', suggestions = None\<rparr>" "[]"]
    init_without_elements [of "\<lparr>bookInput = None, suggestions = Some ([], False)\<rparr>"
      "[(0, Input ''dune''), (180, Timeout 1), (200, KeyDown ArrowDown), (300, Click False)]"]
  by (simp add: init_def)

subsection \<open>Requests\<close>

lemmas step_defs = run_def start_def onInput_def trim_def isWhiteSpace_def clearSuggestions_def
  clearTimeout_def timerCallback_def fetchSuggestions_def abort_def inFlight_def phaseOf_def
  setPhase_def onResponse_def responseOk_def Let_def

lemmas eval_defs = step_defs onJson_def getBooks_def truthy_def settle_def catchError_def

lemma clearSuggestions_handles:
  "controller (clearSuggestions w) = controller w"
  "debounceTimer (clearSuggestions w) = debounceTimer w"
  "inputValue (clearSuggestions w) = inputValue w"
  by (simp_all add: clearSuggestions_def)

lemma renderSuggestions_handles:
  assumes "renderSuggestions books w = Inr w'"
  shows "controller w' = controller w" and "debounceTimer w' = debounceTimer w"
  using assms
  by (auto simp: renderSuggestions_def clearSuggestions_def split: jsval.splits if_splits sum.splits)

lemma settle_handles:
  "controller (settle result w) = controller w"
  "debounceTimer (settle result w) = debounceTimer w"
  by (auto simp: settle_def catchError_def clearSuggestions_handles
      split: sum.splits dest: renderSuggestions_handles)

lemma keydown_handles:
  "controller (after (keydown k w)) = controller w"
  "debounceTimer (after (keydown k w)) = debounceTimer w"
  by (simp_all add: keydown_def Let_def setActiveSuggestion_def clearSuggestions_def)

lemma mousedown_handles:
  "controller (mousedown target w) = controller w"
  "debounceTimer (mousedown target w) = debounceTimer w"
  by (simp_all add: mousedown_def clearSuggestions_def split: option.splits)

lemma documentClick_handles:
  "controller (documentClick inside w) = controller w"
  "debounceTimer (documentClick inside w) = debounceTimer w"
  by (simp_all add: documentClick_def clearSuggestions_def)

lemmas handles = clearSuggestions_handles settle_handles keydown_handles mousedown_handles
  documentClick_handles

lemma inFlight_setPhase:
  "inFlight (setPhase r p rs) r' \<longleftrightarrow>
     (if r' = r \<and> r < length rs then p = Fetching \<or> p = ReadingBody else inFlight rs r')"
  by (auto simp: inFlight_def setPhase_def nth_list_update)

lemma length_setPhase: "length (setPhase r p rs) = length rs"
  by (simp add: setPhase_def)

lemma setPhase_empty: "setPhase r p rs = [] \<longleftrightarrow> rs = []"
  by (simp add: setPhase_def)

lemma length_abort: "length (abort c rs) = length rs"
  by (simp add: abort_def)

lemma inFlight_abort: "inFlight (abort c rs) r \<longleftrightarrow> inFlight rs r \<and> r \<noteq> c"
  by (auto simp: inFlight_def abort_def nth_list_update)

lemma oneLive_start: "oneLive (start v items shown)"
  by (simp add: oneLive_def start_def latest_def inFlight_def)

lemma inFlight_snoc:
  "inFlight (rs @ [x]) r \<longleftrightarrow>
     (if r < length rs then inFlight rs r
      else r = length rs \<and> (phase x = Fetching \<or> phase x = ReadingBody))"
  by (auto simp: inFlight_def nth_append)

lemma inFlight_less: "inFlight rs r \<Longrightarrow> r < length rs"
  by (simp add: inFlight_def)

lemma oneLive_fetchSuggestions:
  assumes "oneLive b"
  shows "oneLive (fetchSuggestions q b)"
proof (cases "controller (ui b)")
  case None
  with assms have "requests b = []"
    by (simp add: oneLive_def latest_def split: if_splits)
  with None show ?thesis
    by (simp add: oneLive_def fetchSuggestions_def latest_def inFlight_def)
next
  case (Some c)
  with assms have c: "Suc c = length (requests b)"
    by (auto simp: oneLive_def latest_def split: if_splits)
  have "\<not> inFlight (abort c (requests b)) r" for r
    using assms c by (auto simp: inFlight_abort oneLive_def)
  with Some show ?thesis
    by (auto simp: oneLive_def fetchSuggestions_def latest_def inFlight_snoc length_abort
        split: if_splits)
qed

lemma oneLive_ui: "oneLive b \<Longrightarrow> controller w = controller (ui b) \<Longrightarrow> oneLive (b\<lparr>ui := w\<rparr>)"
  by (simp add: oneLive_def latest_def)

lemma oneLive_timerCallback: "oneLive b \<Longrightarrow> oneLive (timerCallback q b)"
  by (auto simp: timerCallback_def Let_def handles intro!: oneLive_ui oneLive_fetchSuggestions)

lemma oneLive_timers: "oneLive (b\<lparr>activeTimers := ts\<rparr>) = oneLive b"
  by (simp add: oneLive_def latest_def)

lemma oneLive_onInput: "oneLive b \<Longrightarrow> oneLive (onInput now v b)"
  by (auto simp: onInput_def Let_def oneLive_def latest_def clearSuggestions_def)

lemma oneLive_setPhase:
  assumes "oneLive b" and "phaseOf b r = Some p0" and "p0 = Fetching \<or> p0 = ReadingBody"
    and "controller w = controller (ui b)"
  shows "oneLive (b\<lparr>ui := w, requests := setPhase r p (requests b)\<rparr>)"
proof -
  from assms(2,3) have "inFlight (requests b) r"
    by (auto simp: phaseOf_def inFlight_def split: if_splits)
  with assms(1) have "Suc r = length (requests b)"
    by (simp add: oneLive_def)
  with assms(1,4) show ?thesis
    by (auto simp: oneLive_def latest_def inFlight_setPhase length_setPhase setPhase_empty
        split: if_splits)
qed

lemma oneLive_step: "oneLive b \<Longrightarrow> oneLive (step e b)"
proof (cases e)
  case (Pair now ev)
  assume inv: "oneLive b"
  show ?thesis
  proof (cases ev)
    case (Input v)
    with Pair inv show ?thesis by (simp add: oneLive_onInput)
  next
    case (KeyDown k)
    with Pair inv show ?thesis by (simp add: oneLive_ui handles)
  next
    case (MouseDown target)
    with Pair inv show ?thesis by (simp add: oneLive_ui handles)
  next
    case (Click inside)
    with Pair inv show ?thesis by (simp add: oneLive_ui handles)
  next
    case (Timeout h)
    with Pair inv show ?thesis
      by (simp add: oneLive_timerCallback oneLive_timers split: option.splits)
  next
    case (Response r status)
    with Pair inv show ?thesis
      using oneLive_setPhase [of b r Fetching "ui b" ReadingBody]
        oneLive_setPhase [of b r Fetching "settle (the (onResponse status)) (ui b)" Settled]
      by (auto simp: handles split: option.splits)
  next
    case (FetchFails r)
    with Pair inv show ?thesis
      using oneLive_setPhase [of b r Fetching "settle (Inl TypeError) (ui b)" Settled]
      by (auto simp: handles)
  next
    case (Body r result)
    with Pair inv show ?thesis
      using oneLive_setPhase [of b r ReadingBody "settle (onJson result) (ui b)" Settled]
      by (auto simp: handles)
  qed
qed

lemma oneLive_run: "oneLive b \<Longrightarrow> oneLive (run es b)"
  unfolding run_def by (induction es arbitrary: b) (simp_all add: oneLive_step)

lemma superseded_ignored:
  assumes "oneLive b" and "Suc r < length (requests b)"
  shows "step (now, Response r status) b = b" and "step (now, FetchFails r) b = b"
    and "step (now, Body r result) b = b"
proof -
  from assms have "\<not> inFlight (requests b) r"
    by (auto simp: oneLive_def)
  with assms(2) have "phaseOf b r \<noteq> Some Fetching" "phaseOf b r \<noteq> Some ReadingBody"
    by (auto simp: phaseOf_def inFlight_def)
  then show "step (now, Response r status) b = b" and "step (now, FetchFails r) b = b"
    and "step (now, Body r result) b = b"
    by simp_all
qed

lemma strings_map: "strings books = Some ss \<Longrightarrow> books = map JStr ss"
  by (induction books arbitrary: ss) (auto split: jsval.splits option.splits)

lemma joinRows_TypeError: "strings books = None \<Longrightarrow> joinRows i books = Inl TypeError"
  by (induction books arbitrary: i) (auto split: jsval.splits option.splits)

text \<open>
  However \<^verbatim>\<open>fetchSuggestions\<close> ends, short of an abort, the dropdown then shows the
  rows of its result and nothing of what it showed before.
\<close>

lemma settle_shows:
  assumes "result \<noteq> Inl AbortError"
  shows "settle result w =
     w\<lparr>listItems := shownFor result, classShow := (shownFor result \<noteq> []), activeIndex := -1\<rparr>"
proof (cases result)
  case (Inl e)
  with assms show ?thesis
    by (simp add: settle_def catchError_def clearSuggestions_def shownFor_def)
next
  case (Inr v)
  show ?thesis
  proof (cases "\<exists>books. v = JArr books")
    case False
    with Inr show ?thesis
      by (cases v)
        (simp_all add: settle_def renderSuggestions_def clearSuggestions_def shownFor_def)
  next
    case True
    then obtain books where v: "v = JArr books" by blast
    show ?thesis
    proof (cases "strings books")
      case None
      then have "books \<noteq> []" by auto
      with None Inr v show ?thesis
        by (simp add: settle_def renderSuggestions_def joinRows_TypeError catchError_def
            clearSuggestions_def shownFor_def)
    next
      case (Some ss)
      then have books: "books = map JStr ss" by (rule strings_map)
      show ?thesis
      proof (cases "ss = []")
        case True
        with Some Inr v books show ?thesis
          by (simp add: settle_def renderSuggestions_def clearSuggestions_def shownFor_def)
      next
        case False
        with Some Inr v books renderSuggestions_strings [OF False, of w] show ?thesis
          by (simp add: settle_def shownFor_def enumerate_empty)
      qed
    qed
  qed
qed

lemma settle_books:
  "settle (onJson (booksBody (s # ss))) w =
     w\<lparr>listItems := map (\<lambda>(k, s). renderedRow k (htmlText s)) (enumerate 0 (s # ss)),
       classShow := True, activeIndex := -1\<rparr>"
  using renderSuggestions_strings [of "s # ss" w]
  by (simp add: settle_def onJson_def getBooks_def truthy_def booksBody_def)

lemma run_append: "run (xs @ ys) b = run ys (run xs b)"
  by (simp add: run_def)

lemma run_Nil: "run [] b = b"
  by (simp add: run_def)

lemma run_Cons: "run (e # es) b = run es (step e b)"
  by (simp add: run_def)

lemma phaseOf_setPhase:
  "r < length (requests b) \<Longrightarrow>
     phaseOf (b\<lparr>ui := w, requests := setPhase r p (requests b)\<rparr>) r = Some p"
  "r < length (requests b) \<Longrightarrow> phaseOf (b\<lparr>requests := setPhase r p (requests b)\<rparr>) r = Some p"
  by (simp_all add: phaseOf_def setPhase_def)

text \<open>
  The most recent request is answered: its response arrives and then its body. What
  the dropdown shows afterwards is the result of that request.
\<close>

lemma answered_shows:
  assumes "phaseOf b r = Some Fetching"
    and "fetchSuggestions_result (Inr status) body \<noteq> Inl AbortError"
  shows "ui (run [(ta, Response r status), (tb, Body r body)] b) =
     (ui b)\<lparr>listItems := shownFor (fetchSuggestions_result (Inr status) body),
            classShow := (shownFor (fetchSuggestions_result (Inr status) body) \<noteq> []),
            activeIndex := -1\<rparr>"
    and "length (requests (run [(ta, Response r status), (tb, Body r body)] b))
      = length (requests b)"
proof -
  from assms(1) have r: "r < length (requests b)"
    by (simp add: phaseOf_def split: if_splits)
  show "ui (run [(ta, Response r status), (tb, Body r body)] b) =
     (ui b)\<lparr>listItems := shownFor (fetchSuggestions_result (Inr status) body),
            classShow := (shownFor (fetchSuggestions_result (Inr status) body) \<noteq> []),
            activeIndex := -1\<rparr>"
  proof (cases "responseOk status")
    case False
    with assms r show ?thesis
      using settle_shows [of "Inr (JArr [])" "ui b"]
      by (simp add: run_def onResponse_def fetchSuggestions_result_def phaseOf_setPhase)
  next
    case True
    with assms r show ?thesis
      using settle_shows [of "onJson body" "ui b"]
      by (simp add: run_def onResponse_def fetchSuggestions_result_def phaseOf_setPhase)
  qed
  show "length (requests (run [(ta, Response r status), (tb, Body r body)] b))
      = length (requests b)"
    using assms(1) r
    by (cases "responseOk status")
      (simp_all add: run_def onResponse_def phaseOf_setPhase length_setPhase)
qed

text \<open>
  C1. In every state the widget can reach: a request in flight is the most recent one
  and the controller in hand is its own; the response, the failure and the body of a
  request that has been superseded change nothing at all. When the most recent request
  is answered, with any status and any body, the dropdown shows the rows of its result
  and nothing else, and whatever arrives afterwards for a request it has superseded
  changes nothing; when it fails, the dropdown is empty.
\<close>

theorem no_stale_overwrite:
  assumes "b = run es (start v items shown)"
  shows "(inFlight (requests b) r \<longrightarrow> Suc r = length (requests b) \<and> controller (ui b) = Some r)
    \<and> (Suc a < length (requests b) \<longrightarrow>
          step (now, Response a status') b = b \<and> step (now, FetchFails a) b = b
          \<and> step (now, Body a body') b = b)
    \<and> (phaseOf b r = Some Fetching \<longrightarrow>
          fetchSuggestions_result (Inr status) body \<noteq> Inl AbortError \<longrightarrow>
            ui (run [(ta, Response r status), (tb, Body r body)] b) =
              (ui b)\<lparr>listItems := shownFor (fetchSuggestions_result (Inr status) body),
                     classShow := (shownFor (fetchSuggestions_result (Inr status) body) \<noteq> []),
                     activeIndex := -1\<rparr>
            \<and> (a < r \<longrightarrow>
                 step (now, Response a status')
                     (run [(ta, Response r status), (tb, Body r body)] b)
                   = run [(ta, Response r status), (tb, Body r body)] b
                 \<and> step (now, FetchFails a)
                     (run [(ta, Response r status), (tb, Body r body)] b)
                   = run [(ta, Response r status), (tb, Body r body)] b
                 \<and> step (now, Body a body')
                     (run [(ta, Response r status), (tb, Body r body)] b)
                   = run [(ta, Response r status), (tb, Body r body)] b))
    \<and> (phaseOf b r = Some Fetching \<longrightarrow>
          listItems (ui (step (ta, FetchFails r) b)) = []
          \<and> \<not> classShow (ui (step (ta, FetchFails r) b)))"
proof -
  let ?b' = "run [(ta, Response r status), (tb, Body r body)] b"
  have inv: "oneLive b"
    using assms oneLive_start oneLive_run by simp
  then have inv': "oneLive ?b'"
    by (rule oneLive_run)
  have live: "Suc r = length (requests b) \<and> controller (ui b) = Some r"
    if "inFlight (requests b) r"
    using inv that by (auto simp: oneLive_def latest_def inFlight_def)
  have stale: "step (now, Response a status') ?b' = ?b' \<and> step (now, FetchFails a) ?b' = ?b'
      \<and> step (now, Body a body') ?b' = ?b'"
    if "phaseOf b r = Some Fetching"
      and "fetchSuggestions_result (Inr status) body \<noteq> Inl AbortError" and "a < r"
  proof -
    from that(1) have "r < length (requests b)"
      by (simp add: phaseOf_def split: if_splits)
    with that(3) answered_shows(2) [OF that(1,2), of ta tb]
    have "Suc a < length (requests ?b')" by simp
    with superseded_ignored [OF inv'] show ?thesis by blast
  qed
  have fails: "listItems (ui (step (ta, FetchFails r) b)) = []
      \<and> \<not> classShow (ui (step (ta, FetchFails r) b))"
    if "phaseOf b r = Some Fetching"
    using that by (simp add: settle_def catchError_def clearSuggestions_def)
  from live stale fails answered_shows(1) superseded_ignored [OF inv] show ?thesis
    by blast
qed

lemma run_supersede:
  "run supersede (start [] [] False) =
     \<lparr>ui = \<lparr>inputValue = ''dun'', listItems = [], classShow = False,
            activeIndex = -1, debounceTimer = Some 2, controller = Some 1\<rparr>,
      nextTimer = 3, activeTimers = [],
      requests = [\<lparr>paramQ = ''du'', paramLimit = ''10'', phase = Aborted\<rparr>,
                  \<lparr>paramQ = ''dun'', paramLimit = ''10'', phase = Fetching\<rparr>]\<rparr>"
  by (simp add: supersede_def eval_defs)

lemma run_typing:
  "run typing (start [] [] False) =
     \<lparr>ui = \<lparr>inputValue = ''dun'', listItems = [renderedRow 0 ''Dune''], classShow = True,
            activeIndex = -1, debounceTimer = Some 2, controller = Some 1\<rparr>,
      nextTimer = 3, activeTimers = [],
      requests = [\<lparr>paramQ = ''du'', paramLimit = ''10'', phase = Aborted\<rparr>,
                  \<lparr>paramQ = ''dun'', paramLimit = ''10'', phase = Settled\<rparr>]\<rparr>"
  by (simp add: typing_def run_append run_supersede run_Nil run_Cons phaseOf_def setPhase_def
      onResponse_def responseOk_def settle_books htmlText_def)

theorem no_stale_overwrite_witness:
  "map paramQ (requests (run typing (start [] [] False))) = [''du'', ''dun'']
   \<and> map textContent (listItems (ui (run typing (start [] [] False)))) = [''Dune'']
   \<and> step (420, Response 0 200) (run typing (start [] [] False)) = run typing (start [] [] False)
   \<and> step (420, FetchFails 0) (run typing (start [] [] False)) = run typing (start [] [] False)
   \<and> step (420, Body 0 (booksBody [''Stale''])) (run typing (start [] [] False))
       = run typing (start [] [] False)"
proof -
  let ?b = "run supersede (start [] [] False)"
  have t: "run typing (start [] [] False)
      = run [(400, Response 1 200), (410, Body 1 (booksBody [''Dune'']))] ?b"
    by (simp add: typing_def run_append)
  have fetching: "phaseOf ?b 1 = Some Fetching"
    by (simp add: run_supersede phaseOf_def)
  have result: "fetchSuggestions_result (Inr 200) (booksBody [''Dune'']) \<noteq> Inl AbortError"
    by (simp add: fetchSuggestions_result_def onResponse_def responseOk_def onJson_def
        getBooks_def booksBody_def)
  from no_stale_overwrite [where b = ?b and es = supersede and r = 1 and a = 0 and now = 420
      and status = 200 and body = "booksBody [''Dune'']" and ta = 400 and tb = 410
      and status' = 200 and body' = "booksBody [''Stale'']", OF refl] fetching result
    zero_less_one [where 'a = nat]
  have "step (420, Response 0 200) (run typing (start [] [] False))
        = run typing (start [] [] False)
      \<and> step (420, FetchFails 0) (run typing (start [] [] False))
        = run typing (start [] [] False)
      \<and> step (420, Body 0 (booksBody [''Stale''])) (run typing (start [] [] False))
        = run typing (start [] [] False)"
    unfolding t by blast
  moreover have "map paramQ (requests (run typing (start [] [] False))) = [''du'', ''dun'']"
    by (simp add: run_typing)
  moreover have "map textContent (listItems (ui (run typing (start [] [] False)))) = [''Dune'']"
    by (simp add: run_typing renderedRow_def)
  ultimately show ?thesis by blast
qed

text \<open>
  C7, as stated, fails on a row whose text has a line break: the input does not get
  the text of the row, it gets the text without the line break.
\<close>

theorem enter_drops_line_break:
  "map textContent (listItems (ui (run twoLines (start [] [] False))))
     = [''Dune'' @ [CHR 0x0A] @ ''Messiah'']
   \<and> activeIndex (ui (run twoLines (start [] [] False))) = 0
   \<and> inputValue (after (keydown Enter (ui (run twoLines (start [] [] False))))) = ''DuneMessiah''
   \<and> inputValue (after (keydown Enter (ui (run twoLines (start [] [] False)))))
     \<noteq> textContent (listItems (ui (run twoLines (start [] [] False))) ! 0)"
  using settle_books [of "''Dune'' @ [CHR 0x0A] @ ''Messiah''" "[]"]
  by (simp add: twoLines_def step_defs htmlText_def renderedRow_def keydown_def
      setActiveSuggestion_def toggleClass_def classTokens_def setAttribute_def js_rem_def
      sanitizeValue_def)

subsection \<open>Timers\<close>

lemma clearTimeout_owned:
  "\<forall>x\<in>set ts. handle = Some (fst x) \<Longrightarrow> clearTimeout handle ts = []"
proof (cases handle)
  case None
  assume "\<forall>x\<in>set ts. handle = Some (fst x)"
  with None show ?thesis by (cases ts) (auto simp: clearTimeout_def)
next
  case (Some h)
  assume "\<forall>x\<in>set ts. handle = Some (fst x)"
  with Some show ?thesis by (auto simp: clearTimeout_def filter_empty_conv)
qed

lemma issued_setPhase: "map paramQ (setPhase r p rs) = map paramQ rs"
  by (simp add: setPhase_def map_update list_update_same_conv)
    (metis list_update_id map_update)

lemma issued_abort: "map paramQ (abort c rs) = map paramQ rs"
  by (simp add: abort_def map_update) (metis list_update_id map_update)

lemma issued_ui: "issued (b\<lparr>ui := w\<rparr>) = issued b"
  by (simp add: issued_def)

lemma issued_fetchSuggestions: "issued (fetchSuggestions q b) = issued b @ [q]"
  by (simp add: issued_def fetchSuggestions_def Let_def issued_abort split: option.splits)

lemma issued_timerCallback: "issued (timerCallback q b) = issued b @ [q]"
  by (simp add: timerCallback_def Let_def issued_ui issued_fetchSuggestions)

lemma timers_fetchSuggestions:
  "activeTimers (fetchSuggestions q b) = activeTimers b"
  "debounceTimer (ui (fetchSuggestions q b)) = debounceTimer (ui b)"
  by (simp_all add: fetchSuggestions_def Let_def)

lemma timers_timerCallback:
  "activeTimers (timerCallback q b) = activeTimers b"
  "debounceTimer (ui (timerCallback q b)) = debounceTimer (ui b)"
  by (simp_all add: timerCallback_def Let_def timers_fetchSuggestions handles)

lemma step_other:
  assumes "\<And>v. e \<noteq> Input v" and "\<And>h. e \<noteq> Timeout h"
  shows "activeTimers (step (t, e) b) = activeTimers b"
    and "debounceTimer (ui (step (t, e) b)) = debounceTimer (ui b)"
    and "issued (step (t, e) b) = issued b"
  using assms
  by (cases e; simp add: handles issued_def issued_setPhase split: option.splits)+

lemma step_timeout_early:
  assumes "armed b h q t0" and "t < t0 + 180"
  shows "step (t, Timeout h') b = b"
  using assms by (simp add: armed_def)

lemma step_quiet:
  assumes "armed b h q t0" and "t < t0 + 180" and "\<And>v. e \<noteq> Input v"
  shows "armed (step (t, e) b) h q t0 \<and> issued (step (t, e) b) = issued b"
proof (cases "\<exists>h'. e = Timeout h'")
  case True
  with assms show ?thesis using step_timeout_early by auto
next
  case False
  with assms show ?thesis using step_other [of e t b] by (simp add: armed_def)
qed

lemma armed_owned: "armed b h q t0 \<Longrightarrow> timersOwned b"
  by (simp add: armed_def timersOwned_def)

lemma step_input:
  assumes "timersOwned b" and "2 \<le> length (trim v)"
  shows "armed (step (t, Input v) b) (nextTimer b) (trim v) t
     \<and> issued (step (t, Input v) b) = issued b"
  using assms clearTimeout_owned [of "activeTimers b" "debounceTimer (ui b)"]
  by (simp add: onInput_def Let_def armed_def timersOwned_def issued_def)

lemma run_quiet:
  assumes "armed b h q t0" and "quiet t0 es" and "lastInput (t0, q) es = (tn, qn)"
  shows "\<exists>h'. armed (run es b) h' qn tn \<and> issued (run es b) = issued b"
  using assms
proof (induction es arbitrary: b h q t0)
  case Nil
  then show ?case by (auto simp: run_def)
next
  case (Cons e es)
  obtain t ev where e: "e = (t, ev)" by (cases e)
  show ?case
  proof (cases "\<exists>v. ev = Input v")
    case True
    then obtain v where ev: "ev = Input v" by blast
    with Cons.prems e have q: "2 \<le> length (trim v)" "quiet t es"
      and l: "lastInput (t, trim v) es = (tn, qn)"
      by simp_all
    from step_input [OF armed_owned [OF Cons.prems(1)] q(1), of t]
    have a: "armed (step (t, Input v) b) (nextTimer b) (trim v) t"
      and i: "issued (step (t, Input v) b) = issued b"
      by simp_all
    from Cons.IH [OF a q(2) l] i show ?thesis
      by (simp add: run_def e ev)
  next
    case False
    then have ne: "\<And>v. ev \<noteq> Input v" by blast
    with Cons.prems e have q: "t < t0 + 180" "quiet t0 es"
      and l: "lastInput (t0, q) es = (tn, qn)"
      by (cases ev; simp)+
    from step_quiet [OF Cons.prems(1) q(1) ne]
    have a: "armed (step (t, ev) b) h q t0" and i: "issued (step (t, ev) b) = issued b"
      by simp_all
    from Cons.IH [OF a q(2) l] i show ?thesis
      by (simp add: run_def e)
  qed
qed

lemma timersOwned_step: "timersOwned b \<Longrightarrow> timersOwned (step e b)"
proof (cases e)
  case (Pair t ev)
  assume inv: "timersOwned b"
  show ?thesis
  proof (cases ev)
    case (Input v)
    with Pair inv show ?thesis
      using clearTimeout_owned [of "activeTimers b" "debounceTimer (ui b)"]
      by (auto simp: onInput_def Let_def timersOwned_def clearSuggestions_def)
  next
    case (Timeout h)
    with Pair inv show ?thesis
      by (auto simp: timersOwned_def timers_timerCallback clearTimeout_def split: option.splits)
  qed (use Pair inv step_other [of ev t b] in \<open>simp_all add: timersOwned_def\<close>)
qed

lemma timersOwned_run: "timersOwned b \<Longrightarrow> timersOwned (run es b)"
  unfolding run_def by (induction es arbitrary: b) (simp_all add: timersOwned_step)

lemma timersOwned_start: "timersOwned (start v items shown)"
  by (simp add: timersOwned_def start_def)

lemma fire:
  assumes "armed b h q t0" and "t0 + 180 \<le> t"
  shows "issued (step (t, Timeout h) b) = issued b @ [q]"
    and "activeTimers (step (t, Timeout h) b) = []"
  using assms issued_timerCallback [of q "b\<lparr>activeTimers := []\<rparr>"]
  by (simp_all add: armed_def timers_timerCallback clearTimeout_def issued_def)

text \<open>
  C5. From any state the widget can reach, take an input with a query of two characters
  or more and a burst after it. Then no request has been made during the burst; exactly
  one timer is active, holding the last query of the burst and due 180 ms after the last
  input; and when that timer runs, one request is made, for that query, and no timer is
  left.
\<close>

theorem debounce_coalesces:
  assumes "b0 = run es0 (start v0 items shown)"
    and "2 \<le> length (trim v1)" and "quiet t1 es"
    and "lastInput (t1, trim v1) es = (tn, q)"
    and "b = run ((t1, Input v1) # es) b0"
  shows "issued b = issued b0
    \<and> (\<exists>h. activeTimers b = [(h, \<lparr>timerQuery = q, due = tn + 180\<rparr>)]
          \<and> (\<forall>t\<ge>tn + 180.
                issued (step (t, Timeout h) b) = issued b0 @ [q]
                \<and> activeTimers (step (t, Timeout h) b) = []))"
proof -
  have "timersOwned b0"
    using assms(1) timersOwned_start timersOwned_run by simp
  from step_input [OF this assms(2), of t1]
  have a: "armed (step (t1, Input v1) b0) (nextTimer b0) (trim v1) t1"
    and i: "issued (step (t1, Input v1) b0) = issued b0"
    by simp_all
  have b: "b = run es (step (t1, Input v1) b0)"
    using assms(5) by (simp add: run_def)
  from run_quiet [OF a assms(3,4)] b i obtain h where
    h: "armed b h q tn" and ib: "issued b = issued b0"
    by auto
  from h have "activeTimers b = [(h, \<lparr>timerQuery = q, due = tn + 180\<rparr>)]"
    by (simp add: armed_def)
  with fire [OF h] ib show ?thesis by auto
qed

lemma run_burst:
  "run ((0, Input ''du'') # burst) (start [] [] False) =
     \<lparr>ui = \<lparr>inputValue = ''dune '', listItems = [], classShow = False, activeIndex = -1,
            debounceTimer = Some 3, controller = None\<rparr>,
      nextTimer = 4, activeTimers = [(3, \<lparr>timerQuery = ''dune'', due = 430\<rparr>)],
      requests = []\<rparr>"
  by (simp add: burst_def eval_defs keydown_def)

theorem debounce_coalesces_witness:
  "issued (run ((0, Input ''du'') # burst) (start [] [] False)) = []
   \<and> activeTimers (run ((0, Input ''du'') # burst) (start [] [] False))
       = [(3, \<lparr>timerQuery = ''dune'', due = 430\<rparr>)]
   \<and> issued (step (430, Timeout 3) (run ((0, Input ''du'') # burst) (start [] [] False)))
       = [''dune'']
   \<and> activeTimers (step (430, Timeout 3) (run ((0, Input ''du'') # burst) (start [] [] False)))
       = []"
proof -
  have "quiet 0 burst" and "lastInput (0, trim ''du'') burst = (250, ''dune'')"
    and "2 \<le> length (trim ''du'')"
    by (simp_all add: burst_def trim_def isWhiteSpace_def)
  from debounce_coalesces [OF _ this(3,1,2) refl, of "start [] [] False" "[]" "[]" "[]" False]
  obtain h where
    h: "activeTimers (run ((0, Input ''du'') # burst) (start [] [] False))
          = [(h, \<lparr>timerQuery = ''dune'', due = 250 + 180\<rparr>)]"
    and i: "issued (run ((0, Input ''du'') # burst) (start [] [] False)) = []"
    and f: "\<forall>t\<ge>250 + 180.
          issued (step (t, Timeout h) (run ((0, Input ''du'') # burst) (start [] [] False)))
            = [] @ [''dune'']
          \<and> activeTimers (step (t, Timeout h) (run ((0, Input ''du'') # burst) (start [] [] False)))
            = []"
    by (auto simp: run_def start_def issued_def)
  from h have "h = 3" by (simp add: run_burst)
  with h i f [rule_format, of 430] show ?thesis by simp
qed

text \<open>
  C4. The query \<open>du\<close> is shortened to \<open>d\<close> after 100 ms. The short query clears the
  dropdown and makes no request, but the timer of the first input stays active: at
  180 ms it runs, the request for \<open>du\<close> goes out, and its answer fills the dropdown
  while the input holds \<open>d\<close>.
\<close>

theorem short_query_repopulated:
  "length (trim (inputValue (ui (run backspace (start [] [] False))))) < 2
   \<and> listItems (ui (run backspace (start [] [] False))) = []
   \<and> requests (run backspace (start [] [] False)) = []
   \<and> activeTimers (run backspace (start [] [] False)) = [(1, \<lparr>timerQuery = ''du'', due = 180\<rparr>)]
   \<and> inputValue (ui (run (backspace @ lateFetch) (start [] [] False))) = ''d''
   \<and> issued (run (backspace @ lateFetch) (start [] [] False)) = [''du'']
   \<and> map textContent (listItems (ui (run (backspace @ lateFetch) (start [] [] False)))) = [''Dune'']
   \<and> classShow (ui (run (backspace @ lateFetch) (start [] [] False)))"
  using settle_books [of "''Dune''" "[]"]
  by (simp add: backspace_def lateFetch_def step_defs issued_def renderedRow_def htmlText_def)

subsection \<open>The dropdown in the states the widget can reach\<close>

text \<open>
  From a page whose list is empty and hidden, every state the widget reaches keeps the
  dropdown well formed. In particular the keydown listener never reads a row beyond
  the last one.
\<close>

lemma wellFormed_clearSuggestions: "wellFormed (clearSuggestions w)"
  by (simp add: wellFormed_def clearSuggestions_def)

lemma joinRows_nonempty:
  "joinRows i (b # bs) = Inr markup \<Longrightarrow> setInnerHTML markup \<noteq> []"
  by (auto simp: setInnerHTML_row split: jsval.splits sum.splits)

lemma wellFormed_renderSuggestions:
  "renderSuggestions books w = Inr w' \<Longrightarrow> wellFormed w'"
proof (cases books)
  case (JArr bs)
  assume r: "renderSuggestions books w = Inr w'"
  show ?thesis
  proof (cases bs)
    case Nil
    with JArr r show ?thesis
      by (auto simp: renderSuggestions_def wellFormed_clearSuggestions)
  next
    case (Cons b bs')
    with JArr r obtain markup where
      m: "joinRows 0 (b # bs') = Inr markup"
      and w': "w' = w\<lparr>listItems := setInnerHTML markup, classShow := True, activeIndex := -1\<rparr>"
      by (auto simp: renderSuggestions_def split: sum.splits)
    from joinRows_nonempty [OF m] w' show ?thesis
      by (simp add: wellFormed_def)
  qed
qed (auto simp: renderSuggestions_def wellFormed_clearSuggestions)

lemma wellFormed_settle: "wellFormed w \<Longrightarrow> wellFormed (settle result w)"
  by (auto simp: settle_def catchError_def wellFormed_clearSuggestions
      split: sum.splits dest: wellFormed_renderSuggestions)

lemma wellFormed_keydown: "wellFormed w \<Longrightarrow> wellFormed (after (keydown k w))"
proof -
  assume wf: "wellFormed w"
  have "0 \<le> js_rem (activeIndex w + 1) (int (length (listItems w)))
      \<and> js_rem (activeIndex w + 1) (int (length (listItems w))) < int (length (listItems w))"
    if "listItems w \<noteq> []"
    using js_rem_down [of "activeIndex w" "int (length (listItems w))"] wf that
    by (simp add: wellFormed_def)
  moreover have "0 \<le> js_rem (activeIndex w - 1 + int (length (listItems w))) (int (length (listItems w)))
      \<and> js_rem (activeIndex w - 1 + int (length (listItems w))) (int (length (listItems w)))
          < int (length (listItems w))"
    if "listItems w \<noteq> []"
    using js_rem_up [of "activeIndex w" "int (length (listItems w))"] wf that
    by (simp add: wellFormed_def)
  ultimately show ?thesis
    using wf
    by (auto simp: keydown_def Let_def setActiveSuggestion_def wellFormed_def
        clearSuggestions_def enumerate_empty)
qed

lemma wellFormed_thrown: "wellFormed w \<Longrightarrow> thrown (keydown k w) = None"
  by (simp add: keydown_def Let_def wellFormed_def)

lemma wellFormed_handles:
  "wellFormed w \<Longrightarrow> wellFormed (w\<lparr>controller := c\<rparr>)"
  "wellFormed w \<Longrightarrow> wellFormed (w\<lparr>debounceTimer := h\<rparr>)"
  "wellFormed w \<Longrightarrow> wellFormed (w\<lparr>inputValue := v\<rparr>)"
  by (simp_all add: wellFormed_def)

lemma wellFormed_step: "wellFormed (ui b) \<Longrightarrow> wellFormed (ui (step e b))"
proof (cases e)
  case (Pair now ev)
  assume wf: "wellFormed (ui b)"
  show ?thesis
  proof (cases ev)
    case (Input v)
    with Pair wf show ?thesis
      by (simp add: onInput_def Let_def wellFormed_clearSuggestions wellFormed_handles)
  next
    case (KeyDown k)
    with Pair wf show ?thesis by (simp add: wellFormed_keydown)
  next
    case (MouseDown target)
    with Pair wf show ?thesis
      by (simp add: mousedown_def wellFormed_clearSuggestions split: option.splits)
  next
    case (Click inside)
    with Pair wf show ?thesis
      by (simp add: documentClick_def wellFormed_clearSuggestions)
  next
    case (Timeout h)
    with Pair wf show ?thesis
      by (simp add: timerCallback_def fetchSuggestions_def Let_def wellFormed_settle
          wellFormed_handles split: option.splits)
  next
    case (Response r status)
    with Pair wf show ?thesis
      by (simp add: wellFormed_settle split: option.splits)
  next
    case (FetchFails r)
    with Pair wf show ?thesis by (simp add: wellFormed_settle)
  next
    case (Body r result)
    with Pair wf show ?thesis by (simp add: wellFormed_settle)
  qed
qed

lemma wellFormed_run: "wellFormed (ui b) \<Longrightarrow> wellFormed (ui (run es b))"
  unfolding run_def by (induction es arbitrary: b) (simp_all add: wellFormed_step)

lemma wellFormed_reachable: "wellFormed (ui (run es (start v [] False)))"
  by (rule wellFormed_run) (simp add: wellFormed_def start_def)

end
